theory Spec2Isabelle
  imports Complex_Main "HOL-Library.AList"
begin

section \<open>JavaScript values used by the engine\<close>

text \<open>
  Identifiers are strings. A JavaScript number is a finite value, NaN or an infinity; the
  engine only compares and clamps numbers, so a finite number is modelled by the real it
  denotes.
\<close>

type_synonym ov_id = string
type_synonym layer_id = string
type_synonym base_id = string
type_synonym group_id = string

datatype jsnum = Num real | NaN | PosInf | NegInf

text \<open>Truthiness of a number (\<open>x || 0\<close>): zero and NaN are falsy.\<close>

fun truthy_num :: "jsnum \<Rightarrow> bool" where
  "truthy_num (Num r) = (r \<noteq> 0)"
| "truthy_num NaN = False"
| "truthy_num PosInf = True"
| "truthy_num NegInf = True"

text \<open>
  \<open>parseFloat(x)\<close> on a number prints it and reads it back, which returns the same
  number (also for NaN and the infinities).
\<close>

definition parseFloat :: "jsnum \<Rightarrow> jsnum" where
  "parseFloat v = v"

text \<open>\<open>Math.min\<close> and \<open>Math.max\<close> of two numbers: NaN if either argument is NaN.\<close>

fun Math_min :: "jsnum \<Rightarrow> jsnum \<Rightarrow> jsnum" where
  "Math_min NaN _ = NaN"
| "Math_min _ NaN = NaN"
| "Math_min NegInf _ = NegInf"
| "Math_min _ NegInf = NegInf"
| "Math_min PosInf b = b"
| "Math_min a PosInf = a"
| "Math_min (Num a) (Num b) = Num (min a b)"

fun Math_max :: "jsnum \<Rightarrow> jsnum \<Rightarrow> jsnum" where
  "Math_max NaN _ = NaN"
| "Math_max _ NaN = NaN"
| "Math_max PosInf _ = PosInf"
| "Math_max _ PosInf = PosInf"
| "Math_max NegInf b = b"
| "Math_max a NegInf = a"
| "Math_max (Num a) (Num b) = Num (max a b)"

text \<open>
  The expression \<open>Math.max(0, Math.min(1, parseFloat(value) || 0))\<close>, written out in
  \<open>BusinessLogicService.setOverlayOpacity\<close>, \<open>setGroupOpacity\<close> and in the two opacity
  setters of \<open>StateService\<close>.
\<close>

definition clamp_opacity :: "jsnum \<Rightarrow> jsnum" where
  "clamp_opacity v =
     Math_max (Num 0)
       (Math_min (Num 1) (if truthy_num (parseFloat v) then parseFloat v else Num 0))"

text \<open>Truthiness of an optional string (\<open>undefined\<close> and the empty string are falsy).\<close>

fun truthy_str :: "string option \<Rightarrow> bool" where
  "truthy_str None = False"
| "truthy_str (Some s) = (s \<noteq> [])"

text \<open>
  A JavaScript object used as a dictionary, and a \<open>Map\<close>, keep their keys in insertion
  order: both are association lists. \<open>AList.update\<close> overwrites a present key in place and
  appends an absent one, \<open>AList.delete\<close> removes a key, \<open>map_of\<close> looks one up.
  A \<open>Set\<close> is a list without repetition.
\<close>

definition set_add :: "'a \<Rightarrow> 'a list \<Rightarrow> 'a list" where
  "set_add x xs = (if x \<in> set xs then xs else xs @ [x])"

definition set_delete :: "'a \<Rightarrow> 'a list \<Rightarrow> 'a list" where
  "set_delete x xs = filter (\<lambda>y. y \<noteq> x) xs"


section \<open>Configuration\<close>

text \<open>
  The options object of the control. Of a layer definition the model keeps the id and the
  name of the deck.gl class (the \<open>props\<close> are passed through to deck.gl). Of an overlay
  it keeps the fields the engine reads; \<open>onChecked\<close> records whether a loader callback
  is defined. The camera directives (\<open>viewport\<close>, \<open>fitBounds\<close>, ...) are only handed to
  \<open>map.flyTo\<close>, an animated request to the host map, and are left out together with the
  DOM panel and the tooltips.
\<close>

record layer_config =
  lc_id :: layer_id
  lc_type :: string

record overlay_config =
  o_id :: ov_id
  o_group :: "group_id option"
  o_deckLayers :: "layer_config list option"
  o_onChecked :: bool
  o_defaultVisible :: bool
  o_defaultOpacity :: "jsnum option"
  o_forcedBaseLayerId :: "base_id option"
  o_filterMinZoom :: "real option"
  o_filterMaxZoom :: "real option"
  o_minZoomLevel :: "real option"
  o_maxZoomLevel :: "real option"

record base_style =
  b_id :: base_id
  b_style :: bool

record options =
  baseStyles :: "base_style list"
  overlays :: "overlay_config list"
  defaultBaseId :: "base_id option"


section \<open>StateService\<close>

record ov_state =
  visible :: bool
  opacity :: jsnum

record viewport =
  vp_center :: "(real \<times> real) option"
  vp_zoom :: "real option"
  vp_bearing :: "real option"
  vp_pitch :: "real option"

text \<open>
  \<open>this._state\<close> with the persistence key and the debounce timer
  (\<open>debounceArmed\<close>: a write is scheduled).
\<close>

record state_service =
  persistenceKey :: "string option"
  debounceArmed :: bool
  s_base :: "base_id option"
  s_overlays :: "(ov_id \<times> ov_state) list"
  s_groups :: "(group_id \<times> ov_state) list"
  s_layerOrder :: "string list"
  s_viewport :: viewport

text \<open>
  What \<open>localStorage\<close> holds under a key: text that \<open>JSON.parse\<close> rejects (or that is
  not an object), or an object whose fields may be absent.
\<close>

record saved =
  sv_base :: "base_id option option"
  sv_overlays :: "(ov_id \<times> ov_state) list option"
  sv_groups :: "(group_id \<times> ov_state) list option"
  sv_layerOrder :: "string list option"
  sv_viewport :: "viewport option"

datatype stored = Unparsable | Saved saved

type_synonym local_storage = "(string \<times> stored) list"

definition merge_viewport :: "viewport \<Rightarrow> viewport \<Rightarrow> viewport" where
  "merge_viewport a b =
     \<lparr> vp_center = (case vp_center b of None \<Rightarrow> vp_center a | Some c \<Rightarrow> Some c),
       vp_zoom = (case vp_zoom b of None \<Rightarrow> vp_zoom a | Some z \<Rightarrow> Some z),
       vp_bearing = (case vp_bearing b of None \<Rightarrow> vp_bearing a | Some z \<Rightarrow> Some z),
       vp_pitch = (case vp_pitch b of None \<Rightarrow> vp_pitch a | Some z \<Rightarrow> Some z) \<rparr>"

definition initial_state :: "string option \<Rightarrow> state_service" where
  "initial_state key =
     \<lparr> persistenceKey = key, debounceArmed = False, s_base = None, s_overlays = [],
       s_groups = [], s_layerOrder = [],
       s_viewport = \<lparr> vp_center = None, vp_zoom = None, vp_bearing = Some 0,
                      vp_pitch = Some 0 \<rparr> \<rparr>"

text \<open>
  \<open>_loadPersisted\<close>: no key or no item leaves the state as it is; an exception while
  parsing is caught and logged; otherwise each field present in the saved object
  replaces the field of the state.
\<close>

definition loadPersisted :: "local_storage \<Rightarrow> state_service \<Rightarrow> state_service" where
  "loadPersisted ls s =
     (case persistenceKey s of
        None \<Rightarrow> s
      | Some key \<Rightarrow>
         (case map_of ls key of
            None \<Rightarrow> s
          | Some Unparsable \<Rightarrow> s
          | Some (Saved sv) \<Rightarrow>
              (let s1 = (case sv_base sv of None \<Rightarrow> s | Some b \<Rightarrow> s\<lparr>s_base := b\<rparr>);
                   s2 = (case sv_overlays sv of None \<Rightarrow> s1 | Some os \<Rightarrow> s1\<lparr>s_overlays := os\<rparr>);
                   s3 = (case sv_groups sv of None \<Rightarrow> s2 | Some gs \<Rightarrow> s2\<lparr>s_groups := gs\<rparr>);
                   s4 = (case sv_layerOrder sv of None \<Rightarrow> s3
                         | Some lo \<Rightarrow> s3\<lparr>s_layerOrder := lo\<rparr>)
               in (case sv_viewport sv of None \<Rightarrow> s4
                   | Some v \<Rightarrow> s4\<lparr>s_viewport := merge_viewport (s_viewport s4) v\<rparr>))))"

text \<open>The constructor: initial state, then \<open>_loadPersisted\<close>.\<close>

definition new_StateService :: "string option \<Rightarrow> local_storage \<Rightarrow> state_service" where
  "new_StateService key ls = loadPersisted ls (initial_state key)"

text \<open>\<open>_persist\<close>: \<open>JSON.stringify(this._state)\<close> stored under the key.\<close>

definition snapshot :: "state_service \<Rightarrow> saved" where
  "snapshot s =
     \<lparr> sv_base = Some (s_base s), sv_overlays = Some (s_overlays s),
       sv_groups = Some (s_groups s), sv_layerOrder = Some (s_layerOrder s),
       sv_viewport = Some (s_viewport s) \<rparr>"

definition persist :: "state_service \<Rightarrow> local_storage \<Rightarrow> local_storage" where
  "persist s ls =
     (case persistenceKey s of
        None \<Rightarrow> ls
      | Some key \<Rightarrow> AList.update key (Saved (snapshot s)) ls)"

definition schedulePersist :: "state_service \<Rightarrow> state_service" where
  "schedulePersist s = (if persistenceKey s = None then s else s\<lparr>debounceArmed := True\<rparr>)"

definition getOverlayState :: "state_service \<Rightarrow> ov_id \<Rightarrow> ov_state option" where
  "getOverlayState s i = map_of (s_overlays s) i"

text \<open>\<open>state && state.visible\<close>\<close>

definition is_visible :: "state_service \<Rightarrow> ov_id \<Rightarrow> bool" where
  "is_visible s i = (case getOverlayState s i of None \<Rightarrow> False | Some x \<Rightarrow> visible x)"

definition ensure_entry :: "string \<Rightarrow> (string \<times> ov_state) list \<Rightarrow> (string \<times> ov_state) list" where
  "ensure_entry i al =
     (case map_of al i of
        None \<Rightarrow> AList.update i \<lparr>visible = False, opacity = Num 1\<rparr> al
      | Some _ \<Rightarrow> al)"

definition set_visible_entry :: "string \<Rightarrow> bool \<Rightarrow> (string \<times> ov_state) list \<Rightarrow> (string \<times> ov_state) list" where
  "set_visible_entry i v al =
     (let al1 = ensure_entry i al
      in case map_of al1 i of
           None \<Rightarrow> al1
         | Some x \<Rightarrow> AList.update i (x\<lparr>visible := v\<rparr>) al1)"

definition set_opacity_entry :: "string \<Rightarrow> jsnum \<Rightarrow> (string \<times> ov_state) list \<Rightarrow> (string \<times> ov_state) list" where
  "set_opacity_entry i v al =
     (let al1 = ensure_entry i al
      in case map_of al1 i of
           None \<Rightarrow> al1
         | Some x \<Rightarrow> AList.update i (x\<lparr>opacity := clamp_opacity v\<rparr>) al1)"

definition initOverlay :: "ov_id \<Rightarrow> overlay_config \<Rightarrow> state_service \<Rightarrow> state_service" where
  "initOverlay i config s =
     (case map_of (s_overlays s) i of
        Some _ \<Rightarrow> s
      | None \<Rightarrow>
         (let vis = o_defaultVisible config;
              s1 = s\<lparr>s_overlays := AList.update i
                      \<lparr>visible = vis,
                        opacity = (case o_defaultOpacity config of None \<Rightarrow> Num 1 | Some d \<Rightarrow> d)\<rparr>
                      (s_overlays s)\<rparr>
          in case o_group config of
               None \<Rightarrow> s1
             | Some g \<Rightarrow>
                 if vis \<and> g \<noteq> [] \<and> map_of (s_groups s1) g = None
                 then s1\<lparr>s_groups := AList.update g \<lparr>visible = True, opacity = Num 1\<rparr> (s_groups s1)\<rparr>
                 else s1))"

definition st_setOverlayVisibility :: "ov_id \<Rightarrow> bool \<Rightarrow> state_service \<Rightarrow> state_service" where
  "st_setOverlayVisibility i v s =
     schedulePersist (s\<lparr>s_overlays := set_visible_entry i v (s_overlays s)\<rparr>)"

definition st_setOverlayOpacity :: "ov_id \<Rightarrow> jsnum \<Rightarrow> state_service \<Rightarrow> state_service" where
  "st_setOverlayOpacity i v s =
     schedulePersist (s\<lparr>s_overlays := set_opacity_entry i v (s_overlays s)\<rparr>)"

definition st_setGroupVisibility :: "group_id \<Rightarrow> bool \<Rightarrow> state_service \<Rightarrow> state_service" where
  "st_setGroupVisibility i v s =
     schedulePersist (s\<lparr>s_groups := set_visible_entry i v (s_groups s)\<rparr>)"

definition st_setGroupOpacity :: "group_id \<Rightarrow> jsnum \<Rightarrow> state_service \<Rightarrow> state_service" where
  "st_setGroupOpacity i v s =
     schedulePersist (s\<lparr>s_groups := set_opacity_entry i v (s_groups s)\<rparr>)"

text \<open>\<open>removeOverlay\<close>: the entry and its first occurrence in \<open>layerOrder\<close> go.\<close>

definition st_removeOverlay :: "ov_id \<Rightarrow> state_service \<Rightarrow> state_service" where
  "st_removeOverlay i s =
     schedulePersist (s\<lparr>s_overlays := AList.delete i (s_overlays s),
                        s_layerOrder := remove1 i (s_layerOrder s)\<rparr>)"


section \<open>Events, thrown values and suspended calls\<close>

text \<open>
  The shared event emitter is modelled by the log of the events it was asked to emit
  (a handler that throws is caught by \<open>emit\<close> and cannot disturb the engine). \<open>Change\<close>
  wraps the payload of the umbrella event.
\<close>

datatype event =
    EvBasechange base_id
  | EvOverlaychange ov_id bool jsnum
  | EvOverlaygroupchange group_id bool
  | EvLoading ov_id
  | EvSuccess ov_id
  | EvError ov_id string
  | EvStyleload base_id
  | EvZoomfilter ov_id bool
  | Change event

text \<open>
  A value a loader may throw or reject with: an \<open>Error\<close> object with its message, a
  string, or \<open>null\<close>/\<open>undefined\<close>. \<open>error_text\<close> is \<open>error.message || String(error)\<close>;
  reading \<open>.message\<close> of \<open>null\<close> or \<open>undefined\<close> raises a TypeError.
\<close>

datatype js_value = ErrorObj string | StrVal string | Nullish

definition message_TypeError :: js_value where
  "message_TypeError = ErrorObj ''Cannot read properties of undefined''"

fun error_text :: "js_value \<Rightarrow> js_value + string" where
  "error_text (ErrorObj m) = Inr (if m \<noteq> [] then m else ''Error'')"
| "error_text (StrVal s) = Inr s"
| "error_text Nullish = Inl message_TypeError"

text \<open>
  How a loader call ends: it resolves, having merged fields into its overlay's
  configuration through \<open>context.setOverlayConfig\<close> (the function is the net effect of
  these merges on the configuration entry), or it throws or rejects with a value. The
  loader is code of the host application: the model takes its effect on the engine to
  be these merges, applied when it settles, and treats a loader that throws before its
  first \<open>await\<close> like one that rejects. The per-overlay cache is read and written by
  loaders only and is not modelled.
\<close>

datatype loader_outcome = Resolved "overlay_config \<Rightarrow> overlay_config" | Rejected js_value

text \<open>
  Calls that are suspended: \<open>LoaderPending i aw\<close> is an \<open>_activateOverlay\<close> waiting in
  \<open>await this._executeOnChecked(...)\<close> for the loader of overlay \<open>i\<close> (\<open>aw = Some fire\<close>
  when \<open>BusinessLogicService.showOverlay(i, fire)\<close> awaits that activation);
  \<open>ShowPending i fire\<close> is a \<open>showOverlay\<close> whose awaited activation has already
  returned; \<open>StylePending b\<close> is the one-shot \<open>styledata\<close> handler registered by
  \<open>_applyBaseToMap(b)\<close>.
\<close>

datatype pending =
    LoaderPending ov_id "bool option"
  | ShowPending ov_id bool
  | StylePending base_id


section \<open>UIManager state and the whole engine\<close>

record layer =
  l_id :: layer_id
  l_type :: string
  l_opacity :: jsnum

text \<open>
  \<open>u_map\<close>: the map, if attached, with its current zoom. \<open>u_deckOverlay\<close>: the deck.gl
  overlay control, if created, with the layers last committed to it by \<open>setProps\<close>.
\<close>

record ui_manager =
  u_map :: "real option"
  u_deckOverlay :: "layer list option"
  u_deckLayers :: "(layer_id \<times> layer) list"
  u_overlayToLayerIds :: "(ov_id \<times> layer_id list) list"
  u_loadingStates :: "(ov_id \<times> bool) list"
  u_errorStates :: "(ov_id \<times> string) list"
  u_zoomFilteredOverlays :: "ov_id list"

text \<open>
  The services of one control after \<open>onAdd\<close>: they share the options object and the event
  emitter. \<open>deck\<close> is the global \<open>window.deck\<close>: absent, or the names of its layer
  classes.
\<close>

record world =
  st :: state_service
  ui :: ui_manager
  opts :: options
  deck :: "string list option"
  events :: "event list"
  pending :: "pending list"

definition emit :: "event \<Rightarrow> world \<Rightarrow> world" where
  "emit e w = w\<lparr>events := events w @ [e]\<rparr>"

definition find_overlay :: "world \<Rightarrow> ov_id \<Rightarrow> overlay_config option" where
  "find_overlay w i = find (\<lambda>c. o_id c = i) (overlays (opts w))"

definition setBase :: "base_id \<Rightarrow> world \<Rightarrow> world" where
  "setBase baseId w =
     (let prev = s_base (st w);
          w1 = w\<lparr>st := schedulePersist ((st w)\<lparr>s_base := Some baseId\<rparr>)\<rparr>
      in if prev \<noteq> Some baseId
         then emit (Change (EvBasechange baseId)) (emit (EvBasechange baseId) w1)
         else w1)"


subsection \<open>Zoom filtering\<close>

definition getFilterConfig :: "overlay_config \<Rightarrow> real option \<times> real option" where
  "getFilterConfig overlay =
     ((case o_filterMinZoom overlay of Some m \<Rightarrow> Some m | None \<Rightarrow> o_minZoomLevel overlay),
      (case o_filterMaxZoom overlay of Some m \<Rightarrow> Some m | None \<Rightarrow> o_maxZoomLevel overlay))"

definition checkZoomConstraints :: "world \<Rightarrow> overlay_config \<Rightarrow> bool" where
  "checkZoomConstraints w overlay =
     (case u_map (ui w) of
        None \<Rightarrow> True
      | Some currentZoom \<Rightarrow>
          (let f = getFilterConfig overlay
           in if (case fst f of Some minZoom \<Rightarrow> currentZoom < minZoom | None \<Rightarrow> False) then False
              else if (case snd f of Some maxZoom \<Rightarrow> currentZoom \<ge> maxZoom | None \<Rightarrow> False)
                   then False
              else True))"

definition updateZoomFiltering :: "ov_id \<Rightarrow> world \<Rightarrow> bool \<times> world" where
  "updateZoomFiltering overlayId w =
     (case find_overlay w overlayId of
        None \<Rightarrow> (True, w)
      | Some overlay \<Rightarrow>
          (let shouldBeVisible = checkZoomConstraints w overlay
           in if shouldBeVisible
              then (shouldBeVisible,
                    w\<lparr>ui := (ui w)\<lparr>u_zoomFilteredOverlays :=
                          set_delete overlayId (u_zoomFilteredOverlays (ui w))\<rparr>\<rparr>)
              else (shouldBeVisible,
                    w\<lparr>ui := (ui w)\<lparr>u_zoomFilteredOverlays :=
                          set_add overlayId (u_zoomFilteredOverlays (ui w))\<rparr>\<rparr>)))"


subsection \<open>The render-layer registry\<close>

definition updateDeckOverlay :: "world \<Rightarrow> world" where
  "updateDeckOverlay w =
     (case u_deckOverlay (ui w) of
        None \<Rightarrow> w
      | Some _ \<Rightarrow> w\<lparr>ui := (ui w)\<lparr>u_deckOverlay := Some (map snd (u_deckLayers (ui w)))\<rparr>\<rparr>)"

definition initializeDeckOverlay :: "world \<Rightarrow> world" where
  "initializeDeckOverlay w =
     (if u_map (ui w) = None \<or> u_deckOverlay (ui w) \<noteq> None then w
      else if deck w = None then w
      else w\<lparr>ui := (ui w)\<lparr>u_deckOverlay := Some []\<rparr>\<rparr>)"

text \<open>
  \<open>_createDeckLayer\<close>: no layer without \<open>deck\<close> or for an unknown class name. (A
  constructor that throws is caught there and gives no layer either; the model takes
  the constructors of known classes to succeed.)
\<close>

definition createDeckLayer :: "string list option \<Rightarrow> layer_config \<Rightarrow> jsnum \<Rightarrow> layer option" where
  "createDeckLayer dk layerConfig op =
     (case dk of
        None \<Rightarrow> None
      | Some classes \<Rightarrow>
          if lc_type layerConfig \<notin> set classes then None
          else Some \<lparr>l_id = lc_id layerConfig, l_type = lc_type layerConfig, l_opacity = op\<rparr>)"

definition setLoadingState :: "ov_id \<Rightarrow> bool \<Rightarrow> world \<Rightarrow> world" where
  "setLoadingState overlayId isLoading w =
     w\<lparr>ui := (ui w)\<lparr>u_loadingStates := AList.update overlayId isLoading (u_loadingStates (ui w))\<rparr>\<rparr>"

definition overlay_opacity :: "world \<Rightarrow> ov_id \<Rightarrow> jsnum" where
  "overlay_opacity w i = (case getOverlayState (st w) i of None \<Rightarrow> Num 1 | Some x \<Rightarrow> opacity x)"

text \<open>One round of the \<open>forEach\<close> in \<open>_createAndStoreDeckLayers\<close>.\<close>

definition store_layer ::
  "string list option \<Rightarrow> jsnum \<Rightarrow> layer_config \<Rightarrow>
     (layer_id \<times> layer) list \<times> layer_id list \<Rightarrow> (layer_id \<times> layer) list \<times> layer_id list" where
  "store_layer dk op layerConfig acc =
     (case createDeckLayer dk layerConfig op of
        None \<Rightarrow> acc
      | Some l \<Rightarrow> (AList.update (lc_id layerConfig) l (fst acc), snd acc @ [lc_id layerConfig]))"

text \<open>
  \<open>_createAndStoreDeckLayers(overlayId, overlay)\<close>; its callers test \<open>overlay.deckLayers\<close>
  first and the model passes that list.
\<close>

definition createAndStoreDeckLayers :: "ov_id \<Rightarrow> layer_config list \<Rightarrow> world \<Rightarrow> world" where
  "createAndStoreDeckLayers overlayId layerConfigs w =
     (let existingLayerIds = (case map_of (u_overlayToLayerIds (ui w)) overlayId of
                                None \<Rightarrow> [] | Some ids \<Rightarrow> ids);
          dl0 = fold AList.delete existingLayerIds (u_deckLayers (ui w));
          acc = fold (store_layer (deck w) (overlay_opacity w overlayId)) layerConfigs (dl0, [])
      in updateDeckOverlay
           (w\<lparr>ui := (ui w)\<lparr>u_deckLayers := fst acc,
                            u_overlayToLayerIds :=
                              AList.update overlayId (snd acc) (u_overlayToLayerIds (ui w))\<rparr>\<rparr>))"

definition deactivateOverlay :: "ov_id \<Rightarrow> world \<Rightarrow> world" where
  "deactivateOverlay overlayId w =
     (let w1 = (case map_of (u_overlayToLayerIds (ui w)) overlayId of
                  None \<Rightarrow> w
                | Some layerIds \<Rightarrow>
                    w\<lparr>ui := (ui w)\<lparr>u_deckLayers := fold AList.delete layerIds (u_deckLayers (ui w)),
                                     u_overlayToLayerIds :=
                                       AList.delete overlayId (u_overlayToLayerIds (ui w))\<rparr>\<rparr>);
          w2 = w1\<lparr>ui := (ui w1)\<lparr>u_zoomFilteredOverlays :=
                      set_delete overlayId (u_zoomFilteredOverlays (ui w1))\<rparr>\<rparr>
      in updateDeckOverlay (setLoadingState overlayId False w2))"

definition showOverlayLayers :: "overlay_config \<Rightarrow> world \<Rightarrow> world" where
  "showOverlayLayers overlay w =
     (case o_deckLayers overlay of
        None \<Rightarrow> w
      | Some layerConfigs \<Rightarrow>
          updateDeckOverlay
            (w\<lparr>ui := (ui w)\<lparr>u_deckLayers :=
                  fold (\<lambda>layerConfig dl.
                          case createDeckLayer (deck w) layerConfig (overlay_opacity w (o_id overlay)) of
                            None \<Rightarrow> dl
                          | Some l \<Rightarrow> AList.update (lc_id layerConfig) l dl)
                       layerConfigs (u_deckLayers (ui w))\<rparr>\<rparr>))"

definition hideOverlayLayers :: "overlay_config \<Rightarrow> world \<Rightarrow> world" where
  "hideOverlayLayers overlay w =
     (case o_deckLayers overlay of
        None \<Rightarrow> w
      | Some layerConfigs \<Rightarrow>
          updateDeckOverlay
            (w\<lparr>ui := (ui w)\<lparr>u_deckLayers :=
                  fold (\<lambda>layerConfig dl. AList.delete (lc_id layerConfig) dl)
                       layerConfigs (u_deckLayers (ui w))\<rparr>\<rparr>))"

text \<open>\<open>_updateOverlayOpacity\<close>: each owned id that has a live layer gets a clone.\<close>

definition updateOverlayOpacity :: "ov_id \<Rightarrow> jsnum \<Rightarrow> world \<Rightarrow> world" where
  "updateOverlayOpacity overlayId op w =
     (case map_of (u_overlayToLayerIds (ui w)) overlayId of
        None \<Rightarrow> w
      | Some layerIds \<Rightarrow>
          updateDeckOverlay
            (w\<lparr>ui := (ui w)\<lparr>u_deckLayers :=
                  fold (\<lambda>layerId dl.
                          case map_of dl layerId of
                            None \<Rightarrow> dl
                          | Some l \<Rightarrow> AList.update layerId (l\<lparr>l_opacity := op\<rparr>) dl)
                       layerIds (u_deckLayers (ui w))\<rparr>\<rparr>))"

text \<open>The body of the loop of \<open>updateAllZoomFiltering\<close>, and the loop.\<close>

definition zoomFilterStep :: "ov_id \<Rightarrow> world \<Rightarrow> world" where
  "zoomFilterStep overlayId w =
     (if \<not> is_visible (st w) overlayId then w
      else case find_overlay w overlayId of
             None \<Rightarrow> w
           | Some overlay \<Rightarrow>
               (let shouldBeVisible = checkZoomConstraints w overlay;
                    isCurrentlyFiltered = (overlayId \<in> set (u_zoomFilteredOverlays (ui w)))
                in if shouldBeVisible \<and> isCurrentlyFiltered
                   then emit (EvZoomfilter overlayId False)
                          (showOverlayLayers overlay
                             (w\<lparr>ui := (ui w)\<lparr>u_zoomFilteredOverlays :=
                                   set_delete overlayId (u_zoomFilteredOverlays (ui w))\<rparr>\<rparr>))
                   else if \<not> shouldBeVisible \<and> \<not> isCurrentlyFiltered
                   then emit (EvZoomfilter overlayId True)
                          (hideOverlayLayers overlay
                             (w\<lparr>ui := (ui w)\<lparr>u_zoomFilteredOverlays :=
                                   set_add overlayId (u_zoomFilteredOverlays (ui w))\<rparr>\<rparr>))
                   else w))"

definition updateAllZoomFiltering :: "world \<Rightarrow> world" where
  "updateAllZoomFiltering w =
     (if u_map (ui w) = None then w
      else fold zoomFilterStep (map fst (s_overlays (st w))) w)"

text \<open>The map finishes a zoom at level \<open>z\<close> and fires \<open>zoomend\<close>.\<close>

definition onZoomEnd :: "real \<Rightarrow> world \<Rightarrow> world" where
  "onZoomEnd z w =
     (case u_map (ui w) of
        None \<Rightarrow> w
      | Some _ \<Rightarrow> updateAllZoomFiltering (w\<lparr>ui := (ui w)\<lparr>u_map := Some z\<rparr>\<rparr>))"


subsection \<open>Base style switch\<close>

text \<open>
  \<open>_applyBaseToMap\<close>: the deck overlay is removed and both registry maps are cleared; the
  style is handed to the map and a one-shot \<open>styledata\<close> handler is registered.
\<close>

definition applyBaseToMap :: "base_id \<Rightarrow> world \<Rightarrow> world" where
  "applyBaseToMap baseId w =
     (if u_map (ui w) = None then w
      else case find (\<lambda>b. b_id b = baseId) (baseStyles (opts w)) of
             None \<Rightarrow> w
           | Some baseStyle \<Rightarrow>
               if \<not> b_style baseStyle then w
               else w\<lparr>ui := (ui w)\<lparr>u_deckOverlay := None, u_deckLayers := [],
                                   u_overlayToLayerIds := []\<rparr>,
                      pending := pending w @ [StylePending baseId]\<rparr>)"

definition bls_setBaseLayer :: "base_id \<Rightarrow> world \<Rightarrow> bool \<times> world" where
  "bls_setBaseLayer baseId w =
     (case find (\<lambda>b. b_id b = baseId) (baseStyles (opts w)) of
        None \<Rightarrow> (False, w)
      | Some _ \<Rightarrow> (True, applyBaseToMap baseId (setBase baseId w)))"


subsection \<open>Activation\<close>

text \<open>
  \<open>_executeOnChecked\<close> after the loader has settled: \<open>success\<close> on resolution; on a
  throw or rejection the \<open>error\<close> event and the value thrown again (\<open>Inl\<close>, with the
  state reached). \<open>setOverlayConfig\<close> is \<open>Object.assign\<close> on the first entry with the
  overlay's id.
\<close>

fun assign_first ::
  "('a \<Rightarrow> bool) \<Rightarrow> ('a \<Rightarrow> 'a) \<Rightarrow> 'a list \<Rightarrow> 'a list" where
  "assign_first P f [] = []"
| "assign_first P f (x # xs) = (if P x then f x # xs else x # assign_first P f xs)"

definition setOverlayConfig :: "ov_id \<Rightarrow> (overlay_config \<Rightarrow> overlay_config) \<Rightarrow> world \<Rightarrow> world" where
  "setOverlayConfig overlayId newConfig w =
     w\<lparr>opts := (opts w)\<lparr>overlays :=
          assign_first (\<lambda>c. o_id c = overlayId) newConfig (overlays (opts w))\<rparr>\<rparr>"

definition executeOnChecked_settle ::
  "ov_id \<Rightarrow> loader_outcome \<Rightarrow> world \<Rightarrow> (js_value \<times> world) + world" where
  "executeOnChecked_settle overlayId outcome w =
     (case outcome of
        Resolved newConfig \<Rightarrow> Inr (emit (EvSuccess overlayId) (setOverlayConfig overlayId newConfig w))
      | Rejected error \<Rightarrow>
          (case error_text error of
             Inl typeError \<Rightarrow> Inl (typeError, w)
           | Inr m \<Rightarrow> Inl (error, emit (EvError overlayId m) w)))"

text \<open>
  The end of the \<open>try\<close> block of \<open>_activateOverlay\<close> (layer creation, loading flag, error
  state) and its \<open>catch\<close> block.
\<close>

definition activate_finish :: "ov_id \<Rightarrow> overlay_config option \<Rightarrow> world \<Rightarrow> world" where
  "activate_finish overlayId overlay w =
     (let w1 = (case overlay of
                  None \<Rightarrow> w
                | Some ov \<Rightarrow>
                    (case o_deckLayers ov of
                       None \<Rightarrow> w
                     | Some layerConfigs \<Rightarrow> createAndStoreDeckLayers overlayId layerConfigs w));
          w2 = setLoadingState overlayId False w1
      in w2\<lparr>ui := (ui w2)\<lparr>u_errorStates := AList.delete overlayId (u_errorStates (ui w2))\<rparr>\<rparr>)"

definition activate_catch :: "ov_id \<Rightarrow> js_value \<Rightarrow> world \<Rightarrow> (js_value \<times> world) + world" where
  "activate_catch overlayId error w =
     (let w1 = setLoadingState overlayId False w
      in case error_text error of
           Inl typeError \<Rightarrow> Inl (typeError, w1)
         | Inr m \<Rightarrow>
             Inr (emit (EvError overlayId m)
                    (w1\<lparr>ui := (ui w1)\<lparr>u_errorStates :=
                           AList.update overlayId m (u_errorStates (ui w1))\<rparr>\<rparr>)))"

text \<open>
  \<open>_activateOverlay\<close> up to its return or to the \<open>await\<close> of a loader. The first
  component tells that the call is suspended: \<open>loading\<close> was emitted and the loader
  invoked. Nothing before that point throws.
\<close>

definition activateOverlay :: "ov_id \<Rightarrow> bool \<Rightarrow> world \<Rightarrow> bool \<times> world" where
  "activateOverlay overlayId isUserInteraction w =
     (if u_map (ui w) = None then (False, w)
      else
        let w0 = (if u_deckOverlay (ui w) = None then initializeDeckOverlay w else w)
        in if u_deckOverlay (ui w0) = None then (False, w0)
           else case find_overlay w0 overlayId of
                  None \<Rightarrow> (False, w0)
                | Some overlay \<Rightarrow>
                    (let w1 = setLoadingState overlayId True w0
                     in if isUserInteraction \<and> truthy_str (o_forcedBaseLayerId overlay)
                           \<and> s_base (st w1) \<noteq> o_forcedBaseLayerId overlay
                        then (case o_forcedBaseLayerId overlay of
                                None \<Rightarrow> (False, w1)
                              | Some forced \<Rightarrow>
                                  (False, setLoadingState overlayId False
                                            (snd (bls_setBaseLayer forced w1))))
                        else
                          let z = updateZoomFiltering overlayId w1
                          in if \<not> fst z
                             then (False, emit (EvZoomfilter overlayId True)
                                            (setLoadingState overlayId False (snd z)))
                             else if o_onChecked overlay
                             then (True, emit (EvLoading overlayId) (snd z))
                             else (False, activate_finish overlayId (Some overlay) (snd z))))"

text \<open>
  The loader settles: the rest of \<open>_executeOnChecked\<close>, then the rest of
  \<open>_activateOverlay\<close>, which looks the overlay up again. \<open>Inl\<close> is an exception that
  leaves \<open>_activateOverlay\<close>.
\<close>

definition resume_loader ::
  "ov_id \<Rightarrow> loader_outcome \<Rightarrow> world \<Rightarrow> (js_value \<times> world) + world" where
  "resume_loader overlayId outcome w =
     (case executeOnChecked_settle overlayId outcome w of
        Inr w1 \<Rightarrow> Inr (activate_finish overlayId (find_overlay w1 overlayId) w1)
      | Inl (error, w1) \<Rightarrow> activate_catch overlayId error w1)"

text \<open>An activation whose promise nobody awaits.\<close>

definition activate_detached :: "ov_id \<Rightarrow> bool \<Rightarrow> world \<Rightarrow> world" where
  "activate_detached overlayId isUserInteraction w =
     (let r = activateOverlay overlayId isUserInteraction w
      in if fst r then (snd r)\<lparr>pending := pending (snd r) @ [LoaderPending overlayId None]\<rparr>
         else snd r)"

text \<open>The \<open>styledata\<close> handler of \<open>_applyBaseToMap\<close>.\<close>

definition styledata_handler :: "base_id \<Rightarrow> world \<Rightarrow> world" where
  "styledata_handler baseId w =
     (let w1 = initializeDeckOverlay w;
          w2 = fold (\<lambda>overlayId v.
                       if is_visible (st v) overlayId then activate_detached overlayId False v
                       else v)
                    (map fst (s_overlays (st w1))) w1
      in emit (Change (EvStyleload baseId)) (emit (EvStyleload baseId) w2))"


section \<open>BusinessLogicService\<close>

text \<open>
  The service after \<open>initialize\<close>: \<open>uiManager\<close> and \<open>options\<close> are set. A method returns
  its result and the new state; for the \<open>async\<close> \<open>showOverlay\<close> the result is the value
  its promise resolves to and the state is the one reached when the call gives up
  control, the rest of the call being left in \<open>pending\<close>.
\<close>

definition emit_overlaychange :: "ov_id \<Rightarrow> bool \<Rightarrow> jsnum \<Rightarrow> world \<Rightarrow> world" where
  "emit_overlaychange i v op w =
     emit (Change (EvOverlaychange i v op)) (emit (EvOverlaychange i v op) w)"

definition showOverlay_tail :: "ov_id \<Rightarrow> bool \<Rightarrow> world \<Rightarrow> world" where
  "showOverlay_tail i fireCallback w =
     (if fireCallback then emit_overlaychange i True (overlay_opacity w i) w else w)"

definition bls_showOverlay :: "ov_id \<Rightarrow> bool \<Rightarrow> world \<Rightarrow> bool \<times> world" where
  "bls_showOverlay i fireCallback w =
     (if is_visible (st w) i then (True, w)
      else
        let w1 = w\<lparr>st := st_setOverlayVisibility i True (st w)\<rparr>;
            r = activateOverlay i fireCallback w1
        in (True, (snd r)\<lparr>pending := pending (snd r) @
                      [if fst r then LoaderPending i (Some fireCallback)
                       else ShowPending i fireCallback]\<rparr>))"

definition bls_hideOverlay :: "ov_id \<Rightarrow> bool \<Rightarrow> world \<Rightarrow> bool \<times> world" where
  "bls_hideOverlay i fireCallback w =
     (if \<not> is_visible (st w) i then (True, w)
      else
        let w1 = w\<lparr>st := st_setOverlayVisibility i False (st w)\<rparr>;
            w2 = deactivateOverlay i w1
        in (True, if fireCallback then emit_overlaychange i False (overlay_opacity w2 i) w2
                  else w2))"

definition bls_activateOverlay :: "ov_id \<Rightarrow> bool \<Rightarrow> world \<Rightarrow> world" where
  "bls_activateOverlay i isUserInteraction w = activate_detached i isUserInteraction w"

definition bls_setOverlayOpacity :: "ov_id \<Rightarrow> jsnum \<Rightarrow> world \<Rightarrow> bool \<times> world" where
  "bls_setOverlayOpacity i v w =
     (let clamped = clamp_opacity v;
          w1 = w\<lparr>st := st_setOverlayOpacity i clamped (st w)\<rparr>;
          w2 = (if is_visible (st w1) i then updateOverlayOpacity i clamped w1 else w1)
      in (True, emit_overlaychange i (is_visible (st w1) i) clamped w2))"

definition bls_removeOverlay :: "ov_id \<Rightarrow> bool \<Rightarrow> world \<Rightarrow> bool \<times> world" where
  "bls_removeOverlay i fireCallback w =
     (let w1 = setLoadingState i False (deactivateOverlay i w);
          w2 = w1\<lparr>ui := (ui w1)\<lparr>u_errorStates := AList.delete i (u_errorStates (ui w1))\<rparr>\<rparr>;
          w3 = w2\<lparr>st := st_removeOverlay i (st w2)\<rparr>
      in (True, if fireCallback then emit (EvOverlaychange i False (Num 1)) w3 else w3))"

definition overlaysInGroup :: "world \<Rightarrow> group_id \<Rightarrow> overlay_config list" where
  "overlaysInGroup w g = filter (\<lambda>c. o_group c = Some g) (overlays (opts w))"

text \<open>The two loop bodies of \<open>setGroupVisibility\<close>.\<close>

definition group_on_step :: "bool \<Rightarrow> overlay_config \<Rightarrow> world \<Rightarrow> world" where
  "group_on_step anyIndividuallyVisible overlay w =
     (let w1 = (if \<not> anyIndividuallyVisible
                then w\<lparr>st := st_setOverlayVisibility (o_id overlay) True (st w)\<rparr> else w)
      in if is_visible (st w1) (o_id overlay) then activate_detached (o_id overlay) False w1
         else w1)"

definition group_off_step :: "overlay_config \<Rightarrow> world \<Rightarrow> world" where
  "group_off_step overlay w =
     deactivateOverlay (o_id overlay) (w\<lparr>st := st_setOverlayVisibility (o_id overlay) False (st w)\<rparr>)"

definition bls_setGroupVisibility :: "group_id \<Rightarrow> bool \<Rightarrow> world \<Rightarrow> bool \<times> world" where
  "bls_setGroupVisibility g v w =
     (let w1 = w\<lparr>st := st_setGroupVisibility g v (st w)\<rparr>;
          members = overlaysInGroup w1 g;
          w2 = (if v
                then fold (group_on_step (list_ex (\<lambda>c. is_visible (st w1) (o_id c)) members))
                       members w1
                else fold group_off_step members w1)
      in (True, emit (Change (EvOverlaygroupchange g v)) (emit (EvOverlaygroupchange g v) w2)))"

definition group_opacity_step :: "jsnum \<Rightarrow> overlay_config \<Rightarrow> world \<Rightarrow> world" where
  "group_opacity_step clamped overlay w =
     (let w1 = w\<lparr>st := st_setOverlayOpacity (o_id overlay) clamped (st w)\<rparr>
      in if is_visible (st w1) (o_id overlay) then updateOverlayOpacity (o_id overlay) clamped w1
         else w1)"

definition bls_setGroupOpacity :: "group_id \<Rightarrow> jsnum \<Rightarrow> world \<Rightarrow> bool \<times> world" where
  "bls_setGroupOpacity g v w =
     (let clamped = clamp_opacity v;
          w1 = w\<lparr>st := st_setGroupOpacity g clamped (st w)\<rparr>
      in (True, fold (group_opacity_step clamped) (overlaysInGroup w1 g) w1))"


section \<open>Suspended calls resumed\<close>

fun resume :: "pending \<Rightarrow> loader_outcome \<Rightarrow> world \<Rightarrow> world" where
  "resume (LoaderPending i aw) outcome w =
     (case resume_loader i outcome w of
        Inl (e, w1) \<Rightarrow> w1
      | Inr w1 \<Rightarrow> (case aw of None \<Rightarrow> w1 | Some fire \<Rightarrow> showOverlay_tail i fire w1))"
| "resume (ShowPending i fire) outcome w = showOverlay_tail i fire w"
| "resume (StylePending b) outcome w = styledata_handler b w"

text \<open>
  The \<open>n\<close>-th suspended call is resumed (\<open>outcome\<close> is how its loader ended, if it waits
  for one).
\<close>

definition run_pending :: "nat \<Rightarrow> loader_outcome \<Rightarrow> world \<Rightarrow> world" where
  "run_pending n outcome w =
     (if n < length (pending w)
      then resume (pending w ! n) outcome
             (w\<lparr>pending := take n (pending w) @ drop (Suc n) (pending w)\<rparr>)
      else w)"


section \<open>LayersControl: the public API\<close>

fun remove_first :: "('a \<Rightarrow> bool) \<Rightarrow> 'a list \<Rightarrow> 'a list" where
  "remove_first P [] = []"
| "remove_first P (x # xs) = (if P x then xs else x # remove_first P xs)"

definition ctl_setBaseLayer :: "base_id \<Rightarrow> world \<Rightarrow> bool \<times> world" where
  "ctl_setBaseLayer i w =
     (case find (\<lambda>b. b_id b = i) (baseStyles (opts w)) of
        None \<Rightarrow> (False, w)
      | Some _ \<Rightarrow> (True, snd (bls_setBaseLayer i w)))"

definition ctl_removeBaseStyle :: "base_id \<Rightarrow> world \<Rightarrow> bool \<times> world" where
  "ctl_removeBaseStyle i w =
     (if i = [] then (False, w)
      else if \<not> list_ex (\<lambda>b. b_id b = i) (baseStyles (opts w)) then (False, w)
      else
        let wasActive = (s_base (st w) = Some i);
            w1 = w\<lparr>opts := (opts w)\<lparr>baseStyles :=
                     remove_first (\<lambda>b. b_id b = i) (baseStyles (opts w))\<rparr>\<rparr>
        in (True,
            if wasActive
            then (case baseStyles (opts w1) of
                    [] \<Rightarrow> w1
                  | b0 # _ \<Rightarrow>
                      (let fallback =
                             (case find (\<lambda>b. Some (b_id b) = defaultBaseId (opts w1))
                                     (baseStyles (opts w1)) of
                                Some b \<Rightarrow> b | None \<Rightarrow> b0)
                       in snd (bls_setBaseLayer (b_id fallback) w1)))
            else w1))"

definition ctl_removeOverlay :: "ov_id \<Rightarrow> bool \<Rightarrow> world \<Rightarrow> bool \<times> world" where
  "ctl_removeOverlay i fireCallback w =
     (if \<not> list_ex (\<lambda>c. o_id c = i) (overlays (opts w)) then (False, w)
      else
        let w1 = snd (bls_removeOverlay i fireCallback w)
        in (True, w1\<lparr>opts := (opts w1)\<lparr>overlays :=
                     remove_first (\<lambda>c. o_id c = i) (overlays (opts w1))\<rparr>\<rparr>))"

definition ctl_showOverlay :: "ov_id \<Rightarrow> bool \<Rightarrow> world \<Rightarrow> bool \<times> world" where
  "ctl_showOverlay i fireCallback w =
     (case find (\<lambda>c. o_id c = i) (overlays (opts w)) of
        None \<Rightarrow> (False, w)
      | Some _ \<Rightarrow> (True, snd (bls_showOverlay i fireCallback w)))"

definition ctl_hideOverlay :: "ov_id \<Rightarrow> bool \<Rightarrow> world \<Rightarrow> bool \<times> world" where
  "ctl_hideOverlay i fireCallback w =
     (case find (\<lambda>c. o_id c = i) (overlays (opts w)) of
        None \<Rightarrow> (False, w)
      | Some _ \<Rightarrow> (True, snd (bls_hideOverlay i fireCallback w)))"

definition ctl_setOverlayOpacity :: "ov_id \<Rightarrow> jsnum \<Rightarrow> world \<Rightarrow> bool \<times> world" where
  "ctl_setOverlayOpacity i v w =
     (case find (\<lambda>c. o_id c = i) (overlays (opts w)) of
        None \<Rightarrow> (False, w)
      | Some _ \<Rightarrow> (True, snd (bls_setOverlayOpacity i v w)))"

definition ctl_showGroup :: "group_id \<Rightarrow> world \<Rightarrow> bool \<times> world" where
  "ctl_showGroup g w =
     (if \<not> list_ex (\<lambda>c. o_group c = Some g) (overlays (opts w)) then (False, w)
      else (True, snd (bls_setGroupVisibility g True w)))"

definition ctl_hideGroup :: "group_id \<Rightarrow> world \<Rightarrow> bool \<times> world" where
  "ctl_hideGroup g w =
     (if \<not> list_ex (\<lambda>c. o_group c = Some g) (overlays (opts w)) then (False, w)
      else (True, snd (bls_setGroupVisibility g False w)))"

definition ctl_setGroupOpacity :: "group_id \<Rightarrow> jsnum \<Rightarrow> world \<Rightarrow> bool \<times> world" where
  "ctl_setGroupOpacity g v w =
     (if \<not> list_ex (\<lambda>c. o_group c = Some g) (overlays (opts w)) then (False, w)
      else (True, snd (bls_setGroupOpacity g v w)))"


section \<open>Restore, persisted ids, registry invariant\<close>

text \<open>
  The state after the constructor and the \<open>initOverlay\<close> loop of \<open>LayersControl.onAdd\<close>,
  and the overlay and group ids found in the item stored under a key.
\<close>

definition onAdd_initOverlays :: "options \<Rightarrow> state_service \<Rightarrow> state_service" where
  "onAdd_initOverlays op s = fold (\<lambda>c. initOverlay (o_id c) c) (overlays op) s"

definition restore_state :: "string \<Rightarrow> local_storage \<Rightarrow> options \<Rightarrow> state_service" where
  "restore_state key ls op = onAdd_initOverlays op (new_StateService (Some key) ls)"

definition persisted_overlay_ids :: "string \<Rightarrow> local_storage \<Rightarrow> ov_id list" where
  "persisted_overlay_ids key ls =
     (case map_of ls key of
        Some (Saved sv) \<Rightarrow> (case sv_overlays sv of None \<Rightarrow> [] | Some os \<Rightarrow> map fst os)
      | _ \<Rightarrow> [])"

definition persisted_group_ids :: "string \<Rightarrow> local_storage \<Rightarrow> group_id list" where
  "persisted_group_ids key ls =
     (case map_of ls key of
        Some (Saved sv) \<Rightarrow> (case sv_groups sv of None \<Rightarrow> [] | Some gs \<Rightarrow> map fst gs)
      | _ \<Rightarrow> [])"

text \<open>
  The layer ids an overlay owns according to \<open>overlayToLayerIds\<close>, the ids with a live
  entry in \<open>deckLayers\<close>, and the two properties of the registry: every owned id is
  live; no id is owned by two overlays.
\<close>

definition owned :: "world \<Rightarrow> ov_id \<Rightarrow> layer_id set" where
  "owned w i = (case map_of (u_overlayToLayerIds (ui w)) i of None \<Rightarrow> {} | Some ids \<Rightarrow> set ids)"

definition live_ids :: "world \<Rightarrow> layer_id list" where
  "live_ids w = map fst (u_deckLayers (ui w))"

definition owner_ids :: "world \<Rightarrow> ov_id list" where
  "owner_ids w = map fst (u_overlayToLayerIds (ui w))"

definition registry_inv :: "world \<Rightarrow> bool" where
  "registry_inv w = list_all (\<lambda>i. owned w i \<subseteq> set (live_ids w)) (owner_ids w)"

definition ownership_disjoint :: "world \<Rightarrow> bool" where
  "ownership_disjoint w =
     list_all (\<lambda>i. list_all (\<lambda>j. i = j \<or> owned w i \<inter> owned w j = {}) (owner_ids w))
       (owner_ids w)"

text \<open>
  The ids of a list of layer definitions are free for overlay \<open>i\<close> when no other overlay
  owns one of them.
\<close>

definition ids_free_for :: "world \<Rightarrow> ov_id \<Rightarrow> layer_config list \<Rightarrow> bool" where
  "ids_free_for w i layerConfigs =
     list_all (\<lambda>j. i = j \<or> lc_id ` set layerConfigs \<inter> owned w j = {}) (owner_ids w)"

text \<open>
  Registry states reached from an empty registry by layer creation (of ids no other
  overlay owns), deactivation, opacity updates, the filtered-to-visible zoom transition
  and base style switches; any change outside the two registry maps is allowed too.
\<close>

inductive reach :: "world \<Rightarrow> bool" where
  reach_empty: "u_deckLayers (ui w) = [] \<Longrightarrow> u_overlayToLayerIds (ui w) = [] \<Longrightarrow> reach w"
| reach_create: "reach w \<Longrightarrow> ids_free_for w i layerConfigs \<Longrightarrow>
                   reach (createAndStoreDeckLayers i layerConfigs w)"
| reach_deactivate: "reach w \<Longrightarrow> reach (deactivateOverlay i w)"
| reach_opacity: "reach w \<Longrightarrow> reach (updateOverlayOpacity i v w)"
| reach_show: "reach w \<Longrightarrow> reach (showOverlayLayers overlay w)"
| reach_base: "reach w \<Longrightarrow> reach (applyBaseToMap b w)"
| reach_other: "reach w \<Longrightarrow> u_deckLayers (ui w') = u_deckLayers (ui w) \<Longrightarrow>
                  u_overlayToLayerIds (ui w') = u_overlayToLayerIds (ui w) \<Longrightarrow> reach w'"


section \<open>Example inputs\<close>

definition ex_overlay :: "ov_id \<Rightarrow> overlay_config" where
  "ex_overlay i =
     \<lparr> o_id = i, o_group = None, o_deckLayers = None, o_onChecked = False,
       o_defaultVisible = False, o_defaultOpacity = None, o_forcedBaseLayerId = None,
       o_filterMinZoom = None, o_filterMaxZoom = None, o_minZoomLevel = None,
       o_maxZoomLevel = None \<rparr>"

definition ex_layers_a :: "layer_config list" where
  "ex_layers_a = [\<lparr>lc_id = ''a1'', lc_type = ''ScatterplotLayer''\<rparr>,
                  \<lparr>lc_id = ''a2'', lc_type = ''PathLayer''\<rparr>]"

definition ex_overlay_a :: overlay_config where
  "ex_overlay_a = (ex_overlay ''a'')\<lparr>o_group := Some ''g'', o_deckLayers := Some ex_layers_a,
                     o_minZoomLevel := Some 5, o_maxZoomLevel := Some 10\<rparr>"

definition ex_overlay_b :: overlay_config where
  "ex_overlay_b = (ex_overlay ''b'')\<lparr>o_group := Some ''g'',
                     o_deckLayers := Some [\<lparr>lc_id = ''b1'', lc_type = ''PathLayer''\<rparr>]\<rparr>"

text \<open>Overlay \<open>c\<close> has a loader and no static layers; its loader injects \<open>ex_layers_c\<close>.\<close>

definition ex_overlay_c :: overlay_config where
  "ex_overlay_c = (ex_overlay ''c'')\<lparr>o_onChecked := True\<rparr>"

definition ex_layers_c :: "layer_config list" where
  "ex_layers_c = [\<lparr>lc_id = ''c1'', lc_type = ''ScatterplotLayer''\<rparr>]"

definition ex_loader_c :: "overlay_config \<Rightarrow> overlay_config" where
  "ex_loader_c config = config\<lparr>o_deckLayers := Some ex_layers_c\<rparr>"

definition ex_options :: options where
  "ex_options =
     \<lparr> baseStyles = [\<lparr>b_id = ''osm'', b_style = True\<rparr>, \<lparr>b_id = ''sat'', b_style = True\<rparr>],
       overlays = [ex_overlay_a, ex_overlay_b, ex_overlay_c],
       defaultBaseId = None \<rparr>"

definition ex_ui :: "real \<Rightarrow> ui_manager" where
  "ex_ui z =
     \<lparr> u_map = Some z, u_deckOverlay = Some [], u_deckLayers = [], u_overlayToLayerIds = [],
       u_loadingStates = [], u_errorStates = [], u_zoomFilteredOverlays = [] \<rparr>"

text \<open>A control on a map at zoom \<open>z\<close>, nothing persisted, no overlay shown yet.\<close>

definition ex_world :: "real \<Rightarrow> world" where
  "ex_world z =
     \<lparr> st = (onAdd_initOverlays ex_options (initial_state (Some ''layers'')))\<lparr>s_base := Some ''osm''\<rparr>,
       ui = ex_ui z, opts = ex_options,
       deck = Some [''ScatterplotLayer'', ''PathLayer''], events = [], pending = [] \<rparr>"

text \<open>A stored item that mentions an overlay and a group the configuration does not have.\<close>

definition ghost_storage :: local_storage where
  "ghost_storage =
     [(''layers'',
       Saved \<lparr> sv_base = Some (Some ''osm''),
               sv_overlays = Some [(''ghost'', \<lparr>visible = True, opacity = Num 1\<rparr>)],
               sv_groups = Some [(''ghosts'', \<lparr>visible = True, opacity = Num 1\<rparr>)],
               sv_layerOrder = Some [], sv_viewport = None \<rparr>)]"


text \<open>A layer definition for which \<open>_createDeckLayer\<close> yields a layer.\<close>

definition creatable :: "string list option \<Rightarrow> layer_config \<Rightarrow> bool" where
  "creatable dk lc = (case dk of None \<Rightarrow> False | Some classes \<Rightarrow> lc_type lc \<in> set classes)"


text \<open>
  The message of the \<open>error\<close> event for a value thrown by a loader: its own text, or
  the text of the TypeError raised when the value is \<open>null\<close> or \<open>undefined\<close>.
\<close>

definition reported_message :: "js_value \<Rightarrow> string" where
  "reported_message v =
     (case error_text v of
        Inr m \<Rightarrow> m
      | Inl typeError \<Rightarrow> (case error_text typeError of Inr m \<Rightarrow> m | Inl _ \<Rightarrow> []))"


section \<open>Auxiliary facts\<close>

subsection \<open>What each operation leaves alone\<close>

lemma st_emit [simp]: "st (emit e w) = st w" by (simp add: emit_def)
lemma ui_emit [simp]: "ui (emit e w) = ui w" by (simp add: emit_def)
lemma opts_emit [simp]: "opts (emit e w) = opts w" by (simp add: emit_def)
lemma deck_emit [simp]: "deck (emit e w) = deck w" by (simp add: emit_def)
lemma pending_emit [simp]: "pending (emit e w) = pending w" by (simp add: emit_def)
lemma events_emit [simp]: "events (emit e w) = events w @ [e]" by (simp add: emit_def)

lemma updateDeckOverlay_frame [simp]:
  "st (updateDeckOverlay w) = st w" "opts (updateDeckOverlay w) = opts w"
  "deck (updateDeckOverlay w) = deck w" "events (updateDeckOverlay w) = events w"
  "pending (updateDeckOverlay w) = pending w"
  "u_deckLayers (ui (updateDeckOverlay w)) = u_deckLayers (ui w)"
  "u_overlayToLayerIds (ui (updateDeckOverlay w)) = u_overlayToLayerIds (ui w)"
  "u_map (ui (updateDeckOverlay w)) = u_map (ui w)"
  "u_loadingStates (ui (updateDeckOverlay w)) = u_loadingStates (ui w)"
  "u_errorStates (ui (updateDeckOverlay w)) = u_errorStates (ui w)"
  "u_zoomFilteredOverlays (ui (updateDeckOverlay w)) = u_zoomFilteredOverlays (ui w)"
  by (simp_all add: updateDeckOverlay_def split: option.split)

lemma setLoadingState_frame [simp]:
  "st (setLoadingState i b w) = st w" "opts (setLoadingState i b w) = opts w"
  "deck (setLoadingState i b w) = deck w" "events (setLoadingState i b w) = events w"
  "pending (setLoadingState i b w) = pending w"
  "u_deckLayers (ui (setLoadingState i b w)) = u_deckLayers (ui w)"
  "u_overlayToLayerIds (ui (setLoadingState i b w)) = u_overlayToLayerIds (ui w)"
  "u_map (ui (setLoadingState i b w)) = u_map (ui w)"
  "u_deckOverlay (ui (setLoadingState i b w)) = u_deckOverlay (ui w)"
  "u_errorStates (ui (setLoadingState i b w)) = u_errorStates (ui w)"
  "u_zoomFilteredOverlays (ui (setLoadingState i b w)) = u_zoomFilteredOverlays (ui w)"
  "u_loadingStates (ui (setLoadingState i b w)) = AList.update i b (u_loadingStates (ui w))"
  by (simp_all add: setLoadingState_def)

lemma updateOverlayOpacity_frame [simp]:
  "st (updateOverlayOpacity i v w) = st w" "opts (updateOverlayOpacity i v w) = opts w"
  "events (updateOverlayOpacity i v w) = events w"
  "pending (updateOverlayOpacity i v w) = pending w"
  "u_overlayToLayerIds (ui (updateOverlayOpacity i v w)) = u_overlayToLayerIds (ui w)"
  by (simp_all add: updateOverlayOpacity_def split: option.split)

lemma clamp_opacity_range:
  "\<exists>r. clamp_opacity v = Num r \<and> 0 \<le> r \<and> r \<le> 1
       \<and> r = (case v of Num a \<Rightarrow> max 0 (min 1 a) | NaN \<Rightarrow> 0 | PosInf \<Rightarrow> 1 | NegInf \<Rightarrow> 0)"
  by (cases v) (auto simp: clamp_opacity_def parseFloat_def)

lemma clamp_opacity_idem: "clamp_opacity (clamp_opacity v) = clamp_opacity v"
  by (cases v) (auto simp: clamp_opacity_def parseFloat_def max_def min_def)

lemma map_of_set_opacity_entry:
  "map_of (set_opacity_entry i v al) i =
     Some ((case map_of al i of None \<Rightarrow> \<lparr>visible = False, opacity = Num 1\<rparr> | Some x \<Rightarrow> x)
             \<lparr>opacity := clamp_opacity v\<rparr>)"
  by (simp add: set_opacity_entry_def ensure_entry_def Let_def update_conv' split: option.split)

lemma st_bls_setOverlayOpacity:
  "st (snd (bls_setOverlayOpacity i v w)) = st_setOverlayOpacity i (clamp_opacity v) (st w)"
  by (simp add: bls_setOverlayOpacity_def Let_def emit_overlaychange_def)

lemma s_overlays_schedulePersist [simp]: "s_overlays (schedulePersist s) = s_overlays s"
  "s_groups (schedulePersist s) = s_groups s" "s_base (schedulePersist s) = s_base s"
  by (simp_all add: schedulePersist_def)


lemma set_delete_notin [simp]: "x \<notin> set (set_delete x xs)"
  by (simp add: set_delete_def)
lemma set_add_in [simp]: "x \<in> set (set_add x xs)"
  by (simp add: set_add_def)
lemma set_set_delete: "set (set_delete x xs) = set xs - {x}"
  by (auto simp: set_delete_def)
lemma set_set_add: "set (set_add x xs) = insert x (set xs)"
  by (auto simp: set_add_def)

lemma checkZoomConstraints_interval:
  "u_map (ui w) = Some z \<Longrightarrow> getFilterConfig overlay = (Some mn, Some mx) \<Longrightarrow>
     checkZoomConstraints w overlay = (\<not> (z < mn \<or> mx \<le> z))"
  by (auto simp: checkZoomConstraints_def Let_def)

lemma showOverlayLayers_frame [simp]:
  "st (showOverlayLayers ov w) = st w" "opts (showOverlayLayers ov w) = opts w"
  "events (showOverlayLayers ov w) = events w" "pending (showOverlayLayers ov w) = pending w"
  "u_overlayToLayerIds (ui (showOverlayLayers ov w)) = u_overlayToLayerIds (ui w)"
  "u_zoomFilteredOverlays (ui (showOverlayLayers ov w)) = u_zoomFilteredOverlays (ui w)"
  "u_map (ui (showOverlayLayers ov w)) = u_map (ui w)"
  by (simp_all add: showOverlayLayers_def split: option.split)

lemma hideOverlayLayers_frame [simp]:
  "st (hideOverlayLayers ov w) = st w" "opts (hideOverlayLayers ov w) = opts w"
  "events (hideOverlayLayers ov w) = events w" "pending (hideOverlayLayers ov w) = pending w"
  "u_overlayToLayerIds (ui (hideOverlayLayers ov w)) = u_overlayToLayerIds (ui w)"
  "u_zoomFilteredOverlays (ui (hideOverlayLayers ov w)) = u_zoomFilteredOverlays (ui w)"
  "u_map (ui (hideOverlayLayers ov w)) = u_map (ui w)"
  by (simp_all add: hideOverlayLayers_def split: option.split)

lemma updateZoomFiltering_found:
  "find_overlay w i = Some overlay \<Longrightarrow>
     fst (updateZoomFiltering i w) = checkZoomConstraints w overlay \<and>
     (i \<in> set (u_zoomFilteredOverlays (ui (snd (updateZoomFiltering i w))))) =
        (\<not> checkZoomConstraints w overlay)"
  by (simp add: updateZoomFiltering_def Let_def)

lemma zoomFilterStep_filtered:
  "find_overlay w i = Some overlay \<Longrightarrow> is_visible (st w) i \<Longrightarrow>
     (i \<in> set (u_zoomFilteredOverlays (ui (zoomFilterStep i w)))) =
        (\<not> checkZoomConstraints w overlay)"
  by (auto simp: zoomFilterStep_def Let_def)

lemma find_None_iff_notin: "(find P xs = None) = (\<not> list_ex P xs)"
  by (induction xs) auto


subsection \<open>Restore and persistence\<close>

lemma persistenceKey_loadPersisted [simp]:
  "persistenceKey (loadPersisted ls s) = persistenceKey s"
  by (simp add: loadPersisted_def Let_def split: option.split stored.split)

lemma initOverlay_frame [simp]:
  "persistenceKey (initOverlay j c s) = persistenceKey s"
  by (simp add: initOverlay_def Let_def split: option.split)

lemma initOverlay_other:
  "map_of (s_overlays s) g = Some x \<Longrightarrow> map_of (s_overlays (initOverlay j c s)) g = Some x"
  by (auto simp: initOverlay_def Let_def update_conv' split: option.split)

lemma initOverlay_group_other:
  "map_of (s_groups s) g = Some x \<Longrightarrow> map_of (s_groups (initOverlay j c s)) g = Some x"
  by (auto simp: initOverlay_def Let_def update_conv' split: option.split)

lemma fold_initOverlay_keeps:
  "map_of (s_overlays s) g = Some x \<Longrightarrow>
     map_of (s_overlays (fold (\<lambda>c. initOverlay (o_id c) c) cs s)) g = Some x"
  by (induction cs arbitrary: s) (simp_all add: initOverlay_other)

lemma fold_initOverlay_keeps_group:
  "map_of (s_groups s) g = Some x \<Longrightarrow>
     map_of (s_groups (fold (\<lambda>c. initOverlay (o_id c) c) cs s)) g = Some x"
  by (induction cs arbitrary: s) (simp_all add: initOverlay_group_other)

lemma fold_initOverlay_key [simp]:
  "persistenceKey (fold (\<lambda>c. initOverlay (o_id c) c) cs s) = persistenceKey s"
  by (induction cs arbitrary: s) simp_all

lemma loaded_overlays:
  "map_of ls key = Some (Saved sv) \<Longrightarrow> sv_overlays sv = Some os \<Longrightarrow>
     s_overlays (new_StateService (Some key) ls) = os"
  by (simp add: new_StateService_def loadPersisted_def initial_state_def Let_def split: option.split)

lemma loaded_groups:
  "map_of ls key = Some (Saved sv) \<Longrightarrow> sv_groups sv = Some gs \<Longrightarrow>
     s_groups (new_StateService (Some key) ls) = gs"
  by (simp add: new_StateService_def loadPersisted_def initial_state_def Let_def split: option.split)

lemma persistenceKey_restore [simp]: "persistenceKey (restore_state key ls op) = Some key"
  by (simp add: restore_state_def onAdd_initOverlays_def new_StateService_def initial_state_def)

lemma persisted_ids_persist:
  "persistenceKey s = Some key \<Longrightarrow>
     persisted_overlay_ids key (persist s ls') = map fst (s_overlays s) \<and>
     persisted_group_ids key (persist s ls') = map fst (s_groups s)"
  by (simp add: persisted_overlay_ids_def persisted_group_ids_def persist_def update_conv' snapshot_def)

lemma map_of_Some_in_keys: "map_of al k = Some v \<Longrightarrow> k \<in> set (map fst al)"
  by (metis map_of_eq_None_iff option.distinct(1) set_map)

lemma activate_unknown:
  "find_overlay w g = None \<Longrightarrow>
     st (activate_detached g u w) = st w \<and> events (activate_detached g u w) = events w \<and>
     u_deckLayers (ui (activate_detached g u w)) = u_deckLayers (ui w) \<and>
     u_overlayToLayerIds (ui (activate_detached g u w)) = u_overlayToLayerIds (ui w) \<and>
     pending (activate_detached g u w) = pending w"
  by (simp add: activate_detached_def activateOverlay_def Let_def initializeDeckOverlay_def find_overlay_def)

subsection \<open>Activation leaves the overlay states alone\<close>

lemma initializeDeckOverlay_frame [simp]:
  "st (initializeDeckOverlay w) = st w" "opts (initializeDeckOverlay w) = opts w"
  "deck (initializeDeckOverlay w) = deck w" "events (initializeDeckOverlay w) = events w"
  "pending (initializeDeckOverlay w) = pending w"
  "u_map (ui (initializeDeckOverlay w)) = u_map (ui w)"
  "u_deckLayers (ui (initializeDeckOverlay w)) = u_deckLayers (ui w)"
  "u_overlayToLayerIds (ui (initializeDeckOverlay w)) = u_overlayToLayerIds (ui w)"
  "u_loadingStates (ui (initializeDeckOverlay w)) = u_loadingStates (ui w)"
  "u_errorStates (ui (initializeDeckOverlay w)) = u_errorStates (ui w)"
  "u_zoomFilteredOverlays (ui (initializeDeckOverlay w)) = u_zoomFilteredOverlays (ui w)"
  by (simp_all add: initializeDeckOverlay_def)

lemma setBase_frame [simp]:
  "s_overlays (st (setBase b w)) = s_overlays (st w)"
  "s_groups (st (setBase b w)) = s_groups (st w)"
  "opts (setBase b w) = opts w" "ui (setBase b w) = ui w" "deck (setBase b w) = deck w"
  "pending (setBase b w) = pending w"
  by (simp_all add: setBase_def Let_def)

lemma applyBaseToMap_frame [simp]:
  "st (applyBaseToMap b w) = st w" "opts (applyBaseToMap b w) = opts w"
  "deck (applyBaseToMap b w) = deck w" "events (applyBaseToMap b w) = events w"
  "u_map (ui (applyBaseToMap b w)) = u_map (ui w)"
  "u_loadingStates (ui (applyBaseToMap b w)) = u_loadingStates (ui w)"
  "u_errorStates (ui (applyBaseToMap b w)) = u_errorStates (ui w)"
  "u_zoomFilteredOverlays (ui (applyBaseToMap b w)) = u_zoomFilteredOverlays (ui w)"
  by (simp_all add: applyBaseToMap_def split: option.split)

lemma bls_setBaseLayer_frame [simp]:
  "s_overlays (st (snd (bls_setBaseLayer b w))) = s_overlays (st w)"
  "s_groups (st (snd (bls_setBaseLayer b w))) = s_groups (st w)"
  "opts (snd (bls_setBaseLayer b w)) = opts w" "deck (snd (bls_setBaseLayer b w)) = deck w"
  "u_map (ui (snd (bls_setBaseLayer b w))) = u_map (ui w)"
  "u_zoomFilteredOverlays (ui (snd (bls_setBaseLayer b w))) = u_zoomFilteredOverlays (ui w)"
  by (simp_all add: bls_setBaseLayer_def split: option.split)

lemma updateZoomFiltering_frame [simp]:
  "st (snd (updateZoomFiltering i w)) = st w" "opts (snd (updateZoomFiltering i w)) = opts w"
  "deck (snd (updateZoomFiltering i w)) = deck w" "events (snd (updateZoomFiltering i w)) = events w"
  "pending (snd (updateZoomFiltering i w)) = pending w"
  "u_map (ui (snd (updateZoomFiltering i w))) = u_map (ui w)"
  "u_deckOverlay (ui (snd (updateZoomFiltering i w))) = u_deckOverlay (ui w)"
  "u_deckLayers (ui (snd (updateZoomFiltering i w))) = u_deckLayers (ui w)"
  "u_overlayToLayerIds (ui (snd (updateZoomFiltering i w))) = u_overlayToLayerIds (ui w)"
  "u_loadingStates (ui (snd (updateZoomFiltering i w))) = u_loadingStates (ui w)"
  "u_errorStates (ui (snd (updateZoomFiltering i w))) = u_errorStates (ui w)"
  by (simp_all add: updateZoomFiltering_def Let_def split: option.split)

lemma createAndStoreDeckLayers_frame [simp]:
  "st (createAndStoreDeckLayers i ls w) = st w" "opts (createAndStoreDeckLayers i ls w) = opts w"
  "deck (createAndStoreDeckLayers i ls w) = deck w"
  "events (createAndStoreDeckLayers i ls w) = events w"
  "pending (createAndStoreDeckLayers i ls w) = pending w"
  "u_map (ui (createAndStoreDeckLayers i ls w)) = u_map (ui w)"
  "u_loadingStates (ui (createAndStoreDeckLayers i ls w)) = u_loadingStates (ui w)"
  "u_errorStates (ui (createAndStoreDeckLayers i ls w)) = u_errorStates (ui w)"
  "u_zoomFilteredOverlays (ui (createAndStoreDeckLayers i ls w)) = u_zoomFilteredOverlays (ui w)"
  by (simp_all add: createAndStoreDeckLayers_def Let_def)

lemma deactivateOverlay_frame [simp]:
  "st (deactivateOverlay i w) = st w" "opts (deactivateOverlay i w) = opts w"
  "deck (deactivateOverlay i w) = deck w" "events (deactivateOverlay i w) = events w"
  "pending (deactivateOverlay i w) = pending w"
  "u_map (ui (deactivateOverlay i w)) = u_map (ui w)"
  "u_errorStates (ui (deactivateOverlay i w)) = u_errorStates (ui w)"
  by (simp_all add: deactivateOverlay_def Let_def split: option.split)

lemma activate_finish_frame [simp]:
  "st (activate_finish i ov w) = st w" "opts (activate_finish i ov w) = opts w"
  "deck (activate_finish i ov w) = deck w" "events (activate_finish i ov w) = events w"
  "pending (activate_finish i ov w) = pending w"
  "u_map (ui (activate_finish i ov w)) = u_map (ui w)"
  "u_zoomFilteredOverlays (ui (activate_finish i ov w)) = u_zoomFilteredOverlays (ui w)"
  by (simp_all add: activate_finish_def Let_def split: option.split)

lemma activateOverlay_frame [simp]:
  "s_overlays (st (snd (activateOverlay i u w))) = s_overlays (st w)"
  "s_groups (st (snd (activateOverlay i u w))) = s_groups (st w)"
  "opts (snd (activateOverlay i u w)) = opts w"
  "deck (snd (activateOverlay i u w)) = deck w"
  "u_map (ui (snd (activateOverlay i u w))) = u_map (ui w)"
  by (simp_all add: activateOverlay_def Let_def split: option.split)

lemma activate_detached_frame [simp]:
  "s_overlays (st (activate_detached i u w)) = s_overlays (st w)"
  "s_groups (st (activate_detached i u w)) = s_groups (st w)"
  "opts (activate_detached i u w) = opts w"
  "deck (activate_detached i u w) = deck w"
  "u_map (ui (activate_detached i u w)) = u_map (ui w)"
  by (simp_all add: activate_detached_def Let_def)

lemma is_visible_cong: "s_overlays s = s_overlays s' \<Longrightarrow> is_visible s i = is_visible s' i"
  by (simp add: is_visible_def getOverlayState_def)

lemma map_of_set_visible_entry:
  "map_of (set_visible_entry i v al) j =
     (if j = i then Some ((case map_of al i of None \<Rightarrow> \<lparr>visible = False, opacity = Num 1\<rparr> | Some x \<Rightarrow> x)
             \<lparr>visible := v\<rparr>) else map_of al j)"
  by (simp add: set_visible_entry_def ensure_entry_def Let_def update_conv' split: option.split)

lemma is_visible_setOverlayVisibility [simp]:
  "is_visible (st_setOverlayVisibility i v s) j = (if j = i then v else is_visible s j)"
  by (simp add: is_visible_def getOverlayState_def st_setOverlayVisibility_def map_of_set_visible_entry
       split: option.split)

lemma visible_after_show: "is_visible (st (snd (bls_showOverlay i f w))) i"
proof (cases "is_visible (st w) i")
  case True then show ?thesis by (simp add: bls_showOverlay_def)
next
  case False
  have "is_visible (st (snd (activateOverlay i f (w\<lparr>st := st_setOverlayVisibility i True (st w)\<rparr>)))) i
        = is_visible (st_setOverlayVisibility i True (st w)) i"
    by (rule is_visible_cong) simp
  with False show ?thesis by (simp add: bls_showOverlay_def Let_def is_visible_cong[of "st (w\<lparr>pending := p\<rparr>)" "st w" for w p])
qed

subsection \<open>The registry maps after each operation\<close>

lemma keys_delete: "fst ` set (AList.delete k al) = fst ` set al - {k}"
  by (auto simp: AList.delete_eq)

lemma keys_fold_delete: "fst ` set (fold AList.delete ks al) = fst ` set al - set ks"
  by (induction ks arbitrary: al) (auto simp: keys_delete)

lemma createDeckLayer_None_iff: "(createDeckLayer dk lc op = None) = (\<not> creatable dk lc)"
  by (simp add: createDeckLayer_def creatable_def split: option.split)

lemma store_layer_if:
  "store_layer dk op lc acc =
     (if creatable dk lc
      then (AList.update (lc_id lc) \<lparr>l_id = lc_id lc, l_type = lc_type lc, l_opacity = op\<rparr> (fst acc),
            snd acc @ [lc_id lc])
      else acc)"
  by (simp add: store_layer_def createDeckLayer_def creatable_def split: option.split)

lemma fold_store_layer_snd:
  "snd (fold (store_layer dk op) ls acc) = snd acc @ map lc_id (filter (creatable dk) ls)"
  by (induction ls arbitrary: acc) (simp_all add: store_layer_if)

lemma fold_store_layer_keys:
  "fst ` set (fst (fold (store_layer dk op) ls acc)) =
     fst ` set (fst acc) \<union> lc_id ` set (filter (creatable dk) ls)"
  by (induction ls arbitrary: acc) (auto simp: store_layer_if dom_update)

lemma owned_alt: "owned w i = (case map_of (u_overlayToLayerIds (ui w)) i of None \<Rightarrow> {} | Some ids \<Rightarrow> set ids)"
  by (simp add: owned_def)

lemma o2l_createAndStore:
  "u_overlayToLayerIds (ui (createAndStoreDeckLayers i ls w)) =
     AList.update i (map lc_id (filter (creatable (deck w)) ls)) (u_overlayToLayerIds (ui w))"
  by (simp add: createAndStoreDeckLayers_def Let_def fold_store_layer_snd)

lemma live_createAndStore:
  "set (live_ids (createAndStoreDeckLayers i ls w)) =
     (set (live_ids w) - owned w i) \<union> lc_id ` set (filter (creatable (deck w)) ls)"
  by (simp add: createAndStoreDeckLayers_def Let_def live_ids_def fold_store_layer_keys
        keys_fold_delete owned_def split: option.split)

lemma owned_createAndStore:
  "owned (createAndStoreDeckLayers i ls w) j =
     (if j = i then lc_id ` set (filter (creatable (deck w)) ls) else owned w j)"
  by (simp add: owned_def o2l_createAndStore update_conv')

lemma o2l_deactivate:
  "u_overlayToLayerIds (ui (deactivateOverlay i w)) = AList.delete i (u_overlayToLayerIds (ui w))"
  by (simp add: deactivateOverlay_def Let_def map_of_eq_None_iff split: option.split)

lemma live_deactivate:
  "set (live_ids (deactivateOverlay i w)) = set (live_ids w) - owned w i"
  by (simp add: deactivateOverlay_def Let_def live_ids_def keys_fold_delete owned_def split: option.split)

lemma owned_deactivate:
  "owned (deactivateOverlay i w) j = (if j = i then {} else owned w j)"
  by (simp add: owned_def o2l_deactivate delete_conv')

lemma keys_fold_clone:
  "fst ` set (fold (\<lambda>layerId dl. case map_of dl layerId of None \<Rightarrow> dl
                      | Some l \<Rightarrow> AList.update layerId (f l) dl) ks al) = fst ` set al"
proof (induction ks arbitrary: al)
  case Nil then show ?case by simp
next
  case (Cons k ks)
  show ?case
  proof (cases "map_of al k")
    case None then show ?thesis using Cons by simp
  next
    case (Some l)
    then have "k \<in> fst ` set al" by (metis map_of_eq_None_iff option.distinct(1))
    then show ?thesis using Cons Some by (auto simp: dom_update)
  qed
qed

lemma live_updateOverlayOpacity:
  "set (live_ids (updateOverlayOpacity i v w)) = set (live_ids w)"
  by (simp add: updateOverlayOpacity_def live_ids_def keys_fold_clone split: option.split)

lemma owned_updateOverlayOpacity: "owned (updateOverlayOpacity i v w) j = owned w j"
  by (simp add: owned_def)

lemma keys_fold_show:
  "fst ` set al \<subseteq> fst ` set (fold (\<lambda>layerConfig dl. case g layerConfig of None \<Rightarrow> dl
                      | Some l \<Rightarrow> AList.update (lc_id layerConfig) l dl) ls al)"
proof (induction ls arbitrary: al)
  case Nil then show ?case by simp
next
  case (Cons c ls)
  show ?case
  proof (cases "g c")
    case None then show ?thesis using Cons by simp
  next
    case (Some l)
    have "fst ` set al \<subseteq> fst ` set (AList.update (lc_id c) l al)" by (auto simp: dom_update)
    also have "\<dots> \<subseteq> fst ` set (fold (\<lambda>layerConfig dl. case g layerConfig of None \<Rightarrow> dl
                      | Some l \<Rightarrow> AList.update (lc_id layerConfig) l dl) ls (AList.update (lc_id c) l al))"
      by (rule Cons.IH)
    finally show ?thesis using Some by simp
  qed
qed

lemma live_showOverlayLayers:
  "set (live_ids w) \<subseteq> set (live_ids (showOverlayLayers ov w))"
  using keys_fold_show[of "u_deckLayers (ui w)"
      "\<lambda>lc. createDeckLayer (deck w) lc (overlay_opacity w (o_id ov))"]
  by (simp add: showOverlayLayers_def live_ids_def split: option.split)

lemma owned_showOverlayLayers: "owned (showOverlayLayers ov w) j = owned w j"
  by (simp add: owned_def)

lemma owned_not_owner: "i \<notin> set (owner_ids w) \<Longrightarrow> owned w i = {}"
proof -
  assume "i \<notin> set (owner_ids w)"
  then have "map_of (u_overlayToLayerIds (ui w)) i = None"
    by (simp add: owner_ids_def map_of_eq_None_iff)
  then show ?thesis by (simp add: owned_def)
qed

lemma registry_inv_iff: "registry_inv w = (\<forall>i. owned w i \<subseteq> set (live_ids w))"
proof
  assume a: "registry_inv w"
  show "\<forall>i. owned w i \<subseteq> set (live_ids w)"
  proof
    fix i show "owned w i \<subseteq> set (live_ids w)"
    proof (cases "i \<in> set (owner_ids w)")
      case True with a show ?thesis by (simp add: registry_inv_def list_all_iff)
    next
      case False then show ?thesis by (simp add: owned_not_owner)
    qed
  qed
next
  assume "\<forall>i. owned w i \<subseteq> set (live_ids w)"
  then show "registry_inv w" by (simp add: registry_inv_def list_all_iff)
qed

lemma ownership_disjoint_iff:
  "ownership_disjoint w = (\<forall>i j. i \<noteq> j \<longrightarrow> owned w i \<inter> owned w j = {})"
proof
  assume a: "ownership_disjoint w"
  show "\<forall>i j. i \<noteq> j \<longrightarrow> owned w i \<inter> owned w j = {}"
  proof (intro allI impI)
    fix i j :: ov_id assume ne: "i \<noteq> j"
    show "owned w i \<inter> owned w j = {}"
    proof (cases "i \<in> set (owner_ids w) \<and> j \<in> set (owner_ids w)")
      case True
      with a have "i = j \<or> owned w i \<inter> owned w j = {}"
        unfolding ownership_disjoint_def list_all_iff by blast
      with ne show ?thesis by simp
    next
      case False
      then have "owned w i = {} \<or> owned w j = {}" using owned_not_owner by blast
      then show ?thesis by auto
    qed
  qed
next
  assume "\<forall>i j. i \<noteq> j \<longrightarrow> owned w i \<inter> owned w j = {}"
  then show "ownership_disjoint w"
    unfolding ownership_disjoint_def list_all_iff by blast
qed

lemma ids_free_for_iff:
  "ids_free_for w i ls = (\<forall>j. j \<noteq> i \<longrightarrow> lc_id ` set ls \<inter> owned w j = {})"
proof
  assume a: "ids_free_for w i ls"
  show "\<forall>j. j \<noteq> i \<longrightarrow> lc_id ` set ls \<inter> owned w j = {}"
  proof (intro allI impI)
    fix j assume ne: "j \<noteq> i"
    show "lc_id ` set ls \<inter> owned w j = {}"
    proof (cases "j \<in> set (owner_ids w)")
      case True
      from a have "\<forall>j\<in>set (owner_ids w). i = j \<or> lc_id ` set ls \<inter> owned w j = {}"
        by (simp only: ids_free_for_def list_all_iff)
      then have "i = j \<or> lc_id ` set ls \<inter> owned w j = {}" using True by (rule bspec)
      with ne show ?thesis by (elim disjE) simp_all
    next
      case False then show ?thesis by (simp add: owned_not_owner)
    qed
  qed
next
  assume b: "\<forall>j. j \<noteq> i \<longrightarrow> lc_id ` set ls \<inter> owned w j = {}"
  have "\<forall>j\<in>set (owner_ids w). i = j \<or> lc_id ` set ls \<inter> owned w j = {}"
  proof
    fix j show "i = j \<or> lc_id ` set ls \<inter> owned w j = {}"
    proof (cases "i = j")
      case True then show ?thesis by (rule disjI1)
    next
      case False
      then have "j \<noteq> i" by (rule not_sym)
      with b have "lc_id ` set ls \<inter> owned w j = {}" by (elim allE impE)
      then show ?thesis by (rule disjI2)
    qed
  qed
  then show "ids_free_for w i ls" by (simp only: ids_free_for_def list_all_iff)
qed

lemma applyBaseToMap_registry:
  "(u_deckLayers (ui (applyBaseToMap b w)) = [] \<and> u_overlayToLayerIds (ui (applyBaseToMap b w)) = []) \<or>
   (u_deckLayers (ui (applyBaseToMap b w)) = u_deckLayers (ui w) \<and>
    u_overlayToLayerIds (ui (applyBaseToMap b w)) = u_overlayToLayerIds (ui w))"
  by (simp add: applyBaseToMap_def split: option.split)

lemma reach_inv: "reach w \<Longrightarrow> registry_inv w \<and> ownership_disjoint w"
proof (induction rule: reach.induct)
  case (reach_empty w)
  then show ?case by (simp add: registry_inv_iff ownership_disjoint_iff owned_def)
next
  case (reach_create w i ls)
  then have inv: "\<forall>j. owned w j \<subseteq> set (live_ids w)"
    and dis: "\<forall>j k. j \<noteq> k \<longrightarrow> owned w j \<inter> owned w k = {}"
    and free: "\<forall>j. j \<noteq> i \<longrightarrow> lc_id ` set ls \<inter> owned w j = {}"
    by (simp_all add: registry_inv_iff ownership_disjoint_iff ids_free_for_iff)
  have "\<forall>j. owned (createAndStoreDeckLayers i ls w) j \<subseteq> set (live_ids (createAndStoreDeckLayers i ls w))"
  proof
    fix j show "owned (createAndStoreDeckLayers i ls w) j \<subseteq> set (live_ids (createAndStoreDeckLayers i ls w))"
    proof (cases "j = i")
      case True then show ?thesis by (auto simp: owned_createAndStore live_createAndStore)
    next
      case False
      with dis have "owned w j \<inter> owned w i = {}" by blast
      moreover from inv have "owned w j \<subseteq> set (live_ids w)" by blast
      ultimately show ?thesis using False
        by (auto simp: owned_createAndStore live_createAndStore)
    qed
  qed
  moreover have "\<forall>j k. j \<noteq> k \<longrightarrow>
      owned (createAndStoreDeckLayers i ls w) j \<inter> owned (createAndStoreDeckLayers i ls w) k = {}"
  proof (intro allI impI)
    fix j k :: ov_id assume ne: "j \<noteq> k"
    from dis ne have d: "owned w j \<inter> owned w k = {}" by blast
    from free have f1: "j \<noteq> i \<Longrightarrow> lc_id ` set ls \<inter> owned w j = {}"
      and f2: "k \<noteq> i \<Longrightarrow> lc_id ` set ls \<inter> owned w k = {}" by blast+
    show "owned (createAndStoreDeckLayers i ls w) j \<inter> owned (createAndStoreDeckLayers i ls w) k = {}"
      using ne d f1 f2 by (auto simp: owned_createAndStore)
  qed
  ultimately show ?case by (simp add: registry_inv_iff ownership_disjoint_iff)
next
  case (reach_deactivate w i)
  then have inv: "\<forall>j. owned w j \<subseteq> set (live_ids w)"
    and dis: "\<forall>j k. j \<noteq> k \<longrightarrow> owned w j \<inter> owned w k = {}"
    by (simp_all add: registry_inv_iff ownership_disjoint_iff)
  have "\<forall>j. owned (deactivateOverlay i w) j \<subseteq> set (live_ids (deactivateOverlay i w))"
  proof
    fix j show "owned (deactivateOverlay i w) j \<subseteq> set (live_ids (deactivateOverlay i w))"
    proof (cases "j = i")
      case True then show ?thesis by (simp add: owned_deactivate)
    next
      case False
      with dis have "owned w j \<inter> owned w i = {}" by blast
      moreover from inv have "owned w j \<subseteq> set (live_ids w)" by blast
      ultimately show ?thesis using False
        by (auto simp: owned_deactivate live_deactivate)
    qed
  qed
  moreover have "\<forall>j k. j \<noteq> k \<longrightarrow>
      owned (deactivateOverlay i w) j \<inter> owned (deactivateOverlay i w) k = {}"
    using dis by (simp add: owned_deactivate)
  ultimately show ?case by (simp add: registry_inv_iff ownership_disjoint_iff)
next
  case (reach_opacity w i v)
  then show ?case
    by (simp add: registry_inv_iff ownership_disjoint_iff owned_updateOverlayOpacity live_updateOverlayOpacity)
next
  case (reach_show w ov)
  then have inv: "\<forall>j. owned w j \<subseteq> set (live_ids w)"
    and dis: "ownership_disjoint w"
    by (simp_all add: registry_inv_iff)
  have "\<forall>j. owned (showOverlayLayers ov w) j \<subseteq> set (live_ids (showOverlayLayers ov w))"
  proof
    fix j
    from inv have "owned w j \<subseteq> set (live_ids w)" by blast
    with live_showOverlayLayers[of w ov]
    show "owned (showOverlayLayers ov w) j \<subseteq> set (live_ids (showOverlayLayers ov w))"
      unfolding owned_showOverlayLayers by blast
  qed
  moreover have "ownership_disjoint (showOverlayLayers ov w)"
    using dis unfolding ownership_disjoint_iff owned_showOverlayLayers .
  ultimately show ?case by (simp add: registry_inv_iff)
next
  case (reach_base w b)
  from applyBaseToMap_registry[of b w] show ?case
  proof
    assume "u_deckLayers (ui (applyBaseToMap b w)) = [] \<and>
            u_overlayToLayerIds (ui (applyBaseToMap b w)) = []"
    then show ?thesis by (simp add: registry_inv_iff ownership_disjoint_iff owned_def)
  next
    assume "u_deckLayers (ui (applyBaseToMap b w)) = u_deckLayers (ui w) \<and>
      u_overlayToLayerIds (ui (applyBaseToMap b w)) = u_overlayToLayerIds (ui w)"
    then have o: "\<And>j. owned (applyBaseToMap b w) j = owned w j"
      and l: "live_ids (applyBaseToMap b w) = live_ids w"
      by (simp_all add: owned_def live_ids_def)
    from reach_base.IH show ?thesis
      unfolding registry_inv_iff ownership_disjoint_iff o l .
  qed
next
  case (reach_other w w')
  then have o: "\<And>j. owned w' j = owned w j" and l: "live_ids w' = live_ids w"
    by (simp_all add: owned_def live_ids_def)
  from reach_other.IH show ?case
    unfolding registry_inv_iff ownership_disjoint_iff o l .
qed

lemma ex_world_simps:
  "u_deckLayers (ui (ex_world z)) = []" "u_overlayToLayerIds (ui (ex_world z)) = []"
  "deck (ex_world z) = Some [''ScatterplotLayer'', ''PathLayer'']"
  "opts (ex_world z) = ex_options" "u_map (ui (ex_world z)) = Some z"
  "u_deckOverlay (ui (ex_world z)) = Some []" "events (ex_world z) = []" "pending (ex_world z) = []"
  "u_zoomFilteredOverlays (ui (ex_world z)) = []"
  by (simp_all add: ex_world_def ex_ui_def)

lemma ex_find:
  "find_overlay (ex_world z) ''a'' = Some ex_overlay_a"
  "find_overlay (ex_world z) ''b'' = Some ex_overlay_b"
  "find_overlay (ex_world z) ''c'' = Some ex_overlay_c"
  by (simp_all add: find_overlay_def ex_world_simps ex_options_def ex_overlay_a_def ex_overlay_b_def
        ex_overlay_c_def ex_overlay_def)

lemmas ex_eval =
  bls_showOverlay_def is_visible_def getOverlayState_def ex_world_def onAdd_initOverlays_def
  ex_options_def initOverlay_def initial_state_def ex_overlay_a_def ex_overlay_b_def
  ex_overlay_c_def ex_overlay_def Let_def st_setOverlayVisibility_def set_visible_entry_def
  ensure_entry_def schedulePersist_def activateOverlay_def ex_ui_def find_overlay_def
  setLoadingState_def updateZoomFiltering_def checkZoomConstraints_def getFilterConfig_def
  set_delete_def activate_finish_def createAndStoreDeckLayers_def ex_layers_a_def store_layer_def
  createDeckLayer_def overlay_opacity_def updateDeckOverlay_def onZoomEnd_def
  updateAllZoomFiltering_def zoomFilterStep_def hideOverlayLayers_def set_add_def emit_def

subsection \<open>Zoom test, loaders, repeated activation and groups\<close>

lemma checkZoomConstraints_cong:
  "u_map (ui w') = u_map (ui w) \<Longrightarrow> checkZoomConstraints w' ov = checkZoomConstraints w ov"
  by (simp add: checkZoomConstraints_def)

lemma find_overlay_cong: "opts w' = opts w \<Longrightarrow> find_overlay w' i = find_overlay w i"
  by (simp add: find_overlay_def)

lemma activate_detached_zoomFiltered:
  assumes "u_map (ui w) = Some z" "u_deckOverlay (ui w) \<noteq> None" "find_overlay w i = Some ov"
  shows "(i \<in> set (u_zoomFilteredOverlays (ui (activate_detached i False w)))) =
           (\<not> checkZoomConstraints w ov)"
proof -
  let ?w1 = "setLoadingState i True w"
  have f: "find_overlay ?w1 i = Some ov" using assms(3) by (simp add: find_overlay_def)
  have c: "checkZoomConstraints ?w1 ov = checkZoomConstraints w ov"
    by (rule checkZoomConstraints_cong) simp
  from updateZoomFiltering_found[OF f] c
  have z: "fst (updateZoomFiltering i ?w1) = checkZoomConstraints w ov"
    "(i \<in> set (u_zoomFilteredOverlays (ui (snd (updateZoomFiltering i ?w1))))) =
        (\<not> checkZoomConstraints w ov)" by simp_all
  show ?thesis using assms z
    by (auto simp: activate_detached_def activateOverlay_def Let_def)
qed

lemma ex_filter: "getFilterConfig ex_overlay_a = (Some 5, Some 10)"
  by (simp add: getFilterConfig_def ex_overlay_a_def ex_overlay_def)

lemma activateOverlay_suspended:
  "fst (activateOverlay i u w) \<Longrightarrow>
     events (snd (activateOverlay i u w)) = events w @ [EvLoading i] \<and>
     st (snd (activateOverlay i u w)) = st w \<and>
     u_deckLayers (ui (snd (activateOverlay i u w))) = u_deckLayers (ui w) \<and>
     u_overlayToLayerIds (ui (snd (activateOverlay i u w))) = u_overlayToLayerIds (ui w) \<and>
     (\<exists>ov. find_overlay w i = Some ov \<and> o_onChecked ov)"
  by (auto simp: activateOverlay_def Let_def find_overlay_def split: option.splits if_splits)

lemma error_text_TypeError:
  "error_text message_TypeError = Inr ''Cannot read properties of undefined''"
  by (simp add: message_TypeError_def)

lemma resume_loader_rejected:
  "\<exists>w2. resume_loader i (Rejected v) w = Inr w2 \<and>
      events w2 = events w @ (if v = Nullish then [EvError i (reported_message v)]
                               else [EvError i (reported_message v), EvError i (reported_message v)]) \<and>
      u_deckLayers (ui w2) = u_deckLayers (ui w) \<and>
      u_overlayToLayerIds (ui w2) = u_overlayToLayerIds (ui w) \<and>
      u_deckOverlay (ui w2) = u_deckOverlay (ui w) \<and>
      map_of (u_loadingStates (ui w2)) i = Some False \<and>
      map_of (u_errorStates (ui w2)) i = Some (reported_message v) \<and>
      st w2 = st w \<and> opts w2 = opts w"
  by (cases v)
     (simp_all add: resume_loader_def executeOnChecked_settle_def activate_catch_def Let_def
        reported_message_def error_text_TypeError update_conv')

lemmas ex_eval2 = ex_eval bls_hideOverlay_def deactivateOverlay_def run_pending_def
  resume_loader_def executeOnChecked_settle_def setOverlayConfig_def showOverlay_tail_def
  emit_overlaychange_def activate_catch_def ex_loader_c_def ex_layers_c_def

lemma setOverlayConfig_frame [simp]:
  "st (setOverlayConfig i f w) = st w" "ui (setOverlayConfig i f w) = ui w"
  "deck (setOverlayConfig i f w) = deck w" "events (setOverlayConfig i f w) = events w"
  "pending (setOverlayConfig i f w) = pending w"
  by (simp_all add: setOverlayConfig_def)

lemma deckOverlay_createAndStore:
  "u_deckOverlay (ui w) \<noteq> None \<Longrightarrow>
     u_deckOverlay (ui (createAndStoreDeckLayers i ls w)) =
       Some (map snd (u_deckLayers (ui (createAndStoreDeckLayers i ls w))))"
  by (auto simp: createAndStoreDeckLayers_def Let_def updateDeckOverlay_def)

lemma activate_finish_registry:
  "o_deckLayers ov = Some ls \<Longrightarrow>
     u_overlayToLayerIds (ui (activate_finish i (Some ov) w)) =
        u_overlayToLayerIds (ui (createAndStoreDeckLayers i ls w)) \<and>
     u_deckLayers (ui (activate_finish i (Some ov) w)) =
        u_deckLayers (ui (createAndStoreDeckLayers i ls w)) \<and>
     u_deckOverlay (ui (activate_finish i (Some ov) w)) =
        u_deckOverlay (ui (createAndStoreDeckLayers i ls w))"
  by (simp add: activate_finish_def Let_def)

lemma distinct_fold_delete:
  "distinct (map fst al) \<Longrightarrow> distinct (map fst (fold AList.delete ks al))"
  by (induction ks arbitrary: al) (simp_all add: distinct_delete)

lemma distinct_fold_store:
  "distinct (map fst (fst acc)) \<Longrightarrow> distinct (map fst (fst (fold (store_layer dk op) ls acc)))"
  by (induction ls arbitrary: acc) (simp_all add: store_layer_if distinct_update)

lemma distinct_live_createAndStore:
  "distinct (live_ids w) \<Longrightarrow> distinct (live_ids (createAndStoreDeckLayers i ls w))"
  by (simp add: live_ids_def createAndStoreDeckLayers_def Let_def distinct_fold_store
        distinct_fold_delete)

lemma activateOverlay_plain:
  assumes "u_map (ui w) = Some z" "u_deckOverlay (ui w) \<noteq> None" "find_overlay w i = Some ov"
    "\<not> o_onChecked ov" "o_forcedBaseLayerId ov = None" "checkZoomConstraints w ov"
  shows "activateOverlay i u w =
           (False, activate_finish i (Some ov) (snd (updateZoomFiltering i (setLoadingState i True w))))"
proof -
  let ?w1 = "setLoadingState i True w"
  have f: "find_overlay ?w1 i = Some ov" using assms(3) by (simp add: find_overlay_def)
  have c: "checkZoomConstraints ?w1 ov = checkZoomConstraints w ov"
    by (rule checkZoomConstraints_cong) simp
  from updateZoomFiltering_found[OF f] c assms(6)
  have z: "fst (updateZoomFiltering i ?w1)" by simp
  from assms(2) obtain y where y: "u_deckOverlay (ui w) = Some y" by blast
  show ?thesis using assms(1,3,4,5) y z by (simp add: activateOverlay_def Let_def)
qed

lemma second_show:
  "bls_showOverlay i f' (snd (bls_showOverlay i f w)) = (True, snd (bls_showOverlay i f w))"
  using visible_after_show[of i f w] by (simp add: bls_showOverlay_def[of i f'])

lemma overlaysInGroup_cong: "opts w' = opts w \<Longrightarrow> overlaysInGroup w' g = overlaysInGroup w g"
  by (simp add: overlaysInGroup_def)

lemma is_visible_activate_detached [simp]:
  "is_visible (st (activate_detached i u w)) j = is_visible (st w) j"
  by (rule is_visible_cong) simp

lemma group_on_step_True:
  "group_on_step True c w =
     (if is_visible (st w) (o_id c) then activate_detached (o_id c) False w else w)"
  by (simp add: group_on_step_def)

lemma fold_group_restore:
  "fold (group_on_step True) cs w =
     fold (\<lambda>c. activate_detached (o_id c) False) (filter (\<lambda>c. is_visible (st w) (o_id c)) cs) w \<and>
   s_overlays (st (fold (group_on_step True) cs w)) = s_overlays (st w)"
proof (induction cs arbitrary: w)
  case Nil then show ?case by simp
next
  case (Cons c cs)
  show ?case
  proof (cases "is_visible (st w) (o_id c)")
    case True
    let ?w1 = "activate_detached (o_id c) False w"
    have step: "group_on_step True c w = ?w1" using True by (simp add: group_on_step_True)
    have p: "(\<lambda>c. is_visible (st ?w1) (o_id c)) = (\<lambda>c. is_visible (st w) (o_id c))" by simp
    have q: "s_overlays (st ?w1) = s_overlays (st w)" by simp
    from Cons.IH[of ?w1]
    have A: "fold (group_on_step True) cs ?w1 =
               fold (\<lambda>c. activate_detached (o_id c) False)
                 (filter (\<lambda>c. is_visible (st w) (o_id c)) cs) ?w1"
      and B: "s_overlays (st (fold (group_on_step True) cs ?w1)) = s_overlays (st w)"
      unfolding p q by blast+
    have "fold (group_on_step True) (c # cs) w = fold (group_on_step True) cs ?w1"
      using step by simp
    then show ?thesis using True A B by simp
  next
    case False
    have step: "group_on_step True c w = w" using False by (simp add: group_on_step_True)
    from Cons.IH[of w]
    have A: "fold (group_on_step True) cs w =
               fold (\<lambda>c. activate_detached (o_id c) False)
                 (filter (\<lambda>c. is_visible (st w) (o_id c)) cs) w"
      and B: "s_overlays (st (fold (group_on_step True) cs w)) = s_overlays (st w)"
      by blast+
    have "fold (group_on_step True) (c # cs) w = fold (group_on_step True) cs w"
      using step by simp
    then show ?thesis using False A B by simp
  qed
qed

lemma group_on_step_False:
  "group_on_step False c w =
     activate_detached (o_id c) False (w\<lparr>st := st_setOverlayVisibility (o_id c) True (st w)\<rparr>)"
  by (simp add: group_on_step_def)

lemma getOverlayState_setOverlayVisibility_other:
  "j \<noteq> i \<Longrightarrow> getOverlayState (st_setOverlayVisibility i v s) j = getOverlayState s j"
  by (simp add: getOverlayState_def st_setOverlayVisibility_def map_of_set_visible_entry)

lemma getOverlayState_cong: "s_overlays s = s_overlays s' \<Longrightarrow> getOverlayState s j = getOverlayState s' j"
  by (simp add: getOverlayState_def)

lemma getOverlayState_activate_detached [simp]:
  "getOverlayState (st (activate_detached i u w)) j = getOverlayState (st w) j"
  by (rule getOverlayState_cong) simp

lemma fold_group_first:
  "fold (group_on_step False) cs w =
     fold (\<lambda>c v. activate_detached (o_id c) False
                    (v\<lparr>st := st_setOverlayVisibility (o_id c) True (st v)\<rparr>)) cs w \<and>
   (\<forall>j. is_visible (st (fold (group_on_step False) cs w)) j =
          (j \<in> o_id ` set cs \<or> is_visible (st w) j)) \<and>
   (\<forall>j. j \<notin> o_id ` set cs \<longrightarrow>
          getOverlayState (st (fold (group_on_step False) cs w)) j = getOverlayState (st w) j)"
proof (induction cs arbitrary: w)
  case Nil then show ?case by simp
next
  case (Cons c cs)
  let ?w1 = "activate_detached (o_id c) False (w\<lparr>st := st_setOverlayVisibility (o_id c) True (st w)\<rparr>)"
  have v: "\<And>j. is_visible (st ?w1) j = (if j = o_id c then True else is_visible (st w) j)"
    by simp
  have g: "\<And>j. j \<noteq> o_id c \<Longrightarrow> getOverlayState (st ?w1) j = getOverlayState (st w) j"
    by (simp add: getOverlayState_setOverlayVisibility_other)
  have step: "group_on_step False c w = ?w1" by (rule group_on_step_False)
  from Cons.IH[of ?w1] v g step show ?case
    by auto
qed

lemma is_visible_deactivate [simp]: "is_visible (st (deactivateOverlay i w)) j = is_visible (st w) j"
  by simp

lemma fold_group_off:
  "(\<forall>j. is_visible (st (fold group_off_step cs w)) j =
          (j \<notin> o_id ` set cs \<and> is_visible (st w) j)) \<and>
   (\<forall>j. j \<notin> o_id ` set cs \<longrightarrow>
          getOverlayState (st (fold group_off_step cs w)) j = getOverlayState (st w) j) \<and>
   (\<forall>j. map_of (u_overlayToLayerIds (ui (fold group_off_step cs w))) j =
          (if j \<in> o_id ` set cs then None else map_of (u_overlayToLayerIds (ui w)) j)) \<and>
   set (u_zoomFilteredOverlays (ui (fold group_off_step cs w))) =
      set (u_zoomFilteredOverlays (ui w)) - o_id ` set cs"
proof (induction cs arbitrary: w)
  case Nil then show ?case by simp
next
  case (Cons c cs)
  let ?w1 = "group_off_step c w"
  have v: "\<And>j. is_visible (st ?w1) j = (if j = o_id c then False else is_visible (st w) j)"
    by (simp add: group_off_step_def)
  have g: "\<And>j. j \<noteq> o_id c \<Longrightarrow> getOverlayState (st ?w1) j = getOverlayState (st w) j"
    by (simp add: group_off_step_def getOverlayState_setOverlayVisibility_other)
  have m: "\<And>j. map_of (u_overlayToLayerIds (ui ?w1)) j =
          (if j = o_id c then None else map_of (u_overlayToLayerIds (ui w)) j)"
    by (simp add: group_off_step_def o2l_deactivate delete_conv')
  have z: "set (u_zoomFilteredOverlays (ui ?w1)) = set (u_zoomFilteredOverlays (ui w)) - {o_id c}"
    by (simp add: group_off_step_def deactivateOverlay_def Let_def set_set_delete split: option.split)
  from Cons.IH[of ?w1] v g m z show ?case
    by auto
qed

lemma fold_group_first_eq:
  "fold (group_on_step False) cs w =
     fold (\<lambda>c v. activate_detached (o_id c) False
                    (v\<lparr>st := st_setOverlayVisibility (o_id c) True (st v)\<rparr>)) cs w"
  using fold_group_first[of cs w] by blast

lemma fold_group_first_vis:
  "is_visible (st (fold (group_on_step False) cs w)) j = (j \<in> o_id ` set cs \<or> is_visible (st w) j)"
  using fold_group_first[of cs w] by blast

lemma fold_group_first_other:
  "j \<notin> o_id ` set cs \<Longrightarrow>
     getOverlayState (st (fold (group_on_step False) cs w)) j = getOverlayState (st w) j"
  using fold_group_first[of cs w] by blast

lemma fold_group_restore_eq:
  "fold (group_on_step True) cs w =
     fold (\<lambda>c. activate_detached (o_id c) False) (filter (\<lambda>c. is_visible (st w) (o_id c)) cs) w"
  using fold_group_restore[of cs w] by blast

lemma fold_group_restore_states:
  "s_overlays (st (fold (group_on_step True) cs w)) = s_overlays (st w)"
  using fold_group_restore[of cs w] by blast

lemma fold_group_off_vis:
  "is_visible (st (fold group_off_step cs w)) j = (j \<notin> o_id ` set cs \<and> is_visible (st w) j)"
  using fold_group_off[of cs w] by blast

lemma fold_group_off_other:
  "j \<notin> o_id ` set cs \<Longrightarrow>
     getOverlayState (st (fold group_off_step cs w)) j = getOverlayState (st w) j"
  using fold_group_off[of cs w] by blast

lemma fold_group_off_o2l:
  "map_of (u_overlayToLayerIds (ui (fold group_off_step cs w))) j =
     (if j \<in> o_id ` set cs then None else map_of (u_overlayToLayerIds (ui w)) j)"
  using fold_group_off[of cs w] by blast

lemma fold_group_off_zoom:
  "set (u_zoomFilteredOverlays (ui (fold group_off_step cs w))) =
      set (u_zoomFilteredOverlays (ui w)) - o_id ` set cs"
  using fold_group_off[of cs w] by blast

lemma s_overlays_setGroupVisibility [simp]:
  "s_overlays (st_setGroupVisibility g v s) = s_overlays s"
  by (simp add: st_setGroupVisibility_def)

lemma is_visible_setGroupVisibility [simp]:
  "is_visible (st_setGroupVisibility g v s) j = is_visible s j"
  by (rule is_visible_cong) simp

lemma getOverlayState_setGroupVisibility [simp]:
  "getOverlayState (st_setGroupVisibility g v s) j = getOverlayState s j"
  by (rule getOverlayState_cong) simp

lemma group_flag_set:
  "\<exists>x. map_of (s_groups (st_setGroupVisibility g v s)) g = Some x \<and> visible x = v"
  by (simp add: st_setGroupVisibility_def map_of_set_visible_entry)

lemmas ex_eval3 = ex_eval2 bls_setGroupVisibility_def overlaysInGroup_def group_on_step_def
  activate_detached_def st_setGroupVisibility_def group_off_step_def


subsection \<open>Engine operations stay within the reachable registry states\<close>

lemma ids_free_for_cong:
  "u_overlayToLayerIds (ui w') = u_overlayToLayerIds (ui w) \<Longrightarrow>
     ids_free_for w' i ls = ids_free_for w i ls"
  by (simp add: ids_free_for_def owner_ids_def owned_def)

lemma reach_activate_finish:
  assumes "reach w" "\<And>c ls. ov = Some c \<Longrightarrow> o_deckLayers c = Some ls \<Longrightarrow> ids_free_for w i ls"
  shows "reach (activate_finish i ov w)"
proof (cases "\<exists>c ls. ov = Some c \<and> o_deckLayers c = Some ls")
  case True
  then obtain c' ls where c: "ov = Some c'" "o_deckLayers c' = Some ls" by blast
  from assms(2)[OF c] have "ids_free_for w i ls" .
  with assms(1) have "reach (createAndStoreDeckLayers i ls w)" by (rule reach_create)
  moreover have "u_deckLayers (ui (activate_finish i ov w)) = u_deckLayers (ui (createAndStoreDeckLayers i ls w))"
    "u_overlayToLayerIds (ui (activate_finish i ov w)) = u_overlayToLayerIds (ui (createAndStoreDeckLayers i ls w))"
    using c by (simp_all add: activate_finish_def Let_def)
  ultimately show ?thesis by (rule reach_other)
next
  case False
  then have "u_deckLayers (ui (activate_finish i ov w)) = u_deckLayers (ui w)"
    "u_overlayToLayerIds (ui (activate_finish i ov w)) = u_overlayToLayerIds (ui w)"
    by (auto simp: activate_finish_def Let_def split: option.split)
  with assms(1) show ?thesis by (rule reach_other)
qed

lemma reach_bls_setBaseLayer: "reach w \<Longrightarrow> reach (snd (bls_setBaseLayer b w))"
proof -
  assume r: "reach w"
  have "reach (setBase b w)" using r by (rule reach_other) simp_all
  then have "reach (applyBaseToMap b (setBase b w))" by (rule reach_base)
  with r show ?thesis by (simp add: bls_setBaseLayer_def split: option.split)
qed

text \<open>The part of an activation that runs at once.\<close>

lemma reach_activateOverlay:
  assumes r: "reach w"
    and free: "\<And>c ls. find_overlay w i = Some c \<Longrightarrow> o_deckLayers c = Some ls \<Longrightarrow> ids_free_for w i ls"
  shows "reach (snd (activateOverlay i u w))"
proof -
  define w0 where "w0 = (if u_deckOverlay (ui w) = None then initializeDeckOverlay w else w)"
  define w1 where "w1 = setLoadingState i True w0"
  define z where "z = updateZoomFiltering i w1"
  have act: "activateOverlay i u w =
     (if u_map (ui w) = None then (False, w)
      else if u_deckOverlay (ui w0) = None then (False, w0)
           else case find_overlay w0 i of
                  None \<Rightarrow> (False, w0)
                | Some overlay \<Rightarrow>
                    (if u \<and> truthy_str (o_forcedBaseLayerId overlay)
                           \<and> s_base (st w1) \<noteq> o_forcedBaseLayerId overlay
                        then (case o_forcedBaseLayerId overlay of
                                None \<Rightarrow> (False, w1)
                              | Some forced \<Rightarrow>
                                  (False, setLoadingState i False (snd (bls_setBaseLayer forced w1))))
                        else if \<not> fst z
                             then (False, emit (EvZoomfilter i True) (setLoadingState i False (snd z)))
                             else if o_onChecked overlay
                             then (True, emit (EvLoading i) (snd z))
                             else (False, activate_finish i (Some overlay) (snd z))))"
    unfolding activateOverlay_def Let_def w0_def w1_def z_def by (rule refl)
  have r0: "reach w0" using r unfolding w0_def by (rule reach_other) simp_all
  have f0: "find_overlay w0 i = find_overlay w i" by (simp add: find_overlay_def w0_def)
  have r1: "reach w1" using r0 unfolding w1_def by (rule reach_other) simp_all
  have rz: "reach (snd z)" using r1 unfolding z_def by (rule reach_other) simp_all
  have oz: "u_overlayToLayerIds (ui (snd z)) = u_overlayToLayerIds (ui w)"
    by (simp add: z_def w1_def w0_def)
  have rforced: "\<And>b. reach (setLoadingState i False (snd (bls_setBaseLayer b w1)))"
    using reach_bls_setBaseLayer[OF r1] by (rule reach_other) simp_all
  have rfilt: "reach (emit (EvZoomfilter i True) (setLoadingState i False (snd z)))"
    using rz by (rule reach_other) simp_all
  have rload: "reach (emit (EvLoading i) (snd z))"
    using rz by (rule reach_other) simp_all
  have rfin: "\<And>c. find_overlay w i = Some c \<Longrightarrow> reach (activate_finish i (Some c) (snd z))"
  proof -
    fix c assume c: "find_overlay w i = Some c"
    show "reach (activate_finish i (Some c) (snd z))"
    proof (rule reach_activate_finish[OF rz])
      fix c' ls assume "Some c = Some c'" "o_deckLayers c' = Some ls"
      then have "ids_free_for w i ls" using free[OF c] by simp
      then show "ids_free_for (snd z) i ls" using ids_free_for_cong[OF oz] by simp
    qed
  qed
  show ?thesis
    unfolding act using r r0 r1 rforced rfilt rload rfin f0
    by (simp split: option.split)
qed

lemma reach_resume_loader:
  assumes r: "reach w"
    and free: "\<And>c ls. find_overlay (setOverlayConfig i f w) i = Some c \<Longrightarrow>
                  o_deckLayers c = Some ls \<Longrightarrow> ids_free_for w i ls"
  shows "\<exists>w2. resume_loader i (Resolved f) w = Inr w2 \<and> reach w2"
    and "\<exists>w2. resume_loader i (Rejected v) w = Inr w2 \<and> reach w2"
proof -
  let ?w1 = "emit (EvSuccess i) (setOverlayConfig i f w)"
  have r1: "reach ?w1" using r by (rule reach_other) simp_all
  have o1: "u_overlayToLayerIds (ui ?w1) = u_overlayToLayerIds (ui w)" by simp
  have "reach (activate_finish i (find_overlay ?w1 i) ?w1)"
  proof (rule reach_activate_finish[OF r1])
    fix c ls assume a: "find_overlay ?w1 i = Some c" "o_deckLayers c = Some ls"
    then have "find_overlay (setOverlayConfig i f w) i = Some c" by (simp add: find_overlay_def)
    from free[OF this a(2)] show "ids_free_for ?w1 i ls" using ids_free_for_cong[OF o1] by simp
  qed
  then show "\<exists>w2. resume_loader i (Resolved f) w = Inr w2 \<and> reach w2"
    by (simp add: resume_loader_def executeOnChecked_settle_def)
  from resume_loader_rejected[of i v w] obtain w2 where
    w2: "resume_loader i (Rejected v) w = Inr w2" "u_deckLayers (ui w2) = u_deckLayers (ui w)"
      "u_overlayToLayerIds (ui w2) = u_overlayToLayerIds (ui w)" by blast
  from r w2(2,3) have "reach w2" by (rule reach_other)
  with w2(1) show "\<exists>w2. resume_loader i (Rejected v) w = Inr w2 \<and> reach w2" by blast
qed

lemma reach_bls_hideOverlay: "reach w \<Longrightarrow> reach (snd (bls_hideOverlay i f w))"
proof -
  assume r: "reach w"
  let ?w1 = "w\<lparr>st := st_setOverlayVisibility i False (st w)\<rparr>"
  have "reach ?w1" using r by (rule reach_other) simp_all
  then have d: "reach (deactivateOverlay i ?w1)" by (rule reach_deactivate)
  then have "reach (emit_overlaychange i False (overlay_opacity (deactivateOverlay i ?w1) i) (deactivateOverlay i ?w1))"
    by (rule reach_other) (simp_all add: emit_overlaychange_def)
  with r d show ?thesis by (simp add: bls_hideOverlay_def Let_def)
qed

lemma reach_bls_setOverlayOpacity: "reach w \<Longrightarrow> reach (snd (bls_setOverlayOpacity i v w))"
proof -
  assume r: "reach w"
  let ?w1 = "w\<lparr>st := st_setOverlayOpacity i (clamp_opacity v) (st w)\<rparr>"
  have r1: "reach ?w1" using r by (rule reach_other) simp_all
  then have r2: "reach (updateOverlayOpacity i (clamp_opacity v) ?w1)" by (rule reach_opacity)
  have "\<And>x b o'. reach x \<Longrightarrow> reach (emit_overlaychange i b o' x)"
    by (erule reach_other) (simp_all add: emit_overlaychange_def)
  with r1 r2 show ?thesis by (simp add: bls_setOverlayOpacity_def Let_def)
qed



section \<open>The claims\<close>

subsection \<open>C1\<close>

text \<open>
  C1 (amended). The claim asks that every layer id listed in \<open>overlayToLayerIds\<close> has a
  live entry in \<open>deckLayers\<close> after every activation, deactivation, opacity update and
  zoom-filter transition. The visible-to-filtered zoom transition (\<open>_hideOverlayLayers\<close>)
  deletes the overlay's layers from \<open>deckLayers\<close> and leaves \<open>overlayToLayerIds\<close> as it
  is, so the claim fails there. What holds: in every registry state reached from an empty
  registry by layer creation with ids no other overlay owns, deactivation, opacity
  updates, filtered-to-visible transitions and base style switches, every owned id is
  live and no id has two owners; deactivating overlay \<open>i\<close> removes exactly the ids
  \<open>i\<close> owns from \<open>deckLayers\<close>, removes the entry of \<open>i\<close> from \<open>overlayToLayerIds\<close>, and
  leaves the entries and the live layers of every other overlay in place; and the
  invariant holds again after \<open>hideOverlay\<close>, after \<open>setOverlayOpacity\<close>, and after an
  activation (up to its loader, and from the loader's resolution on) of an overlay whose
  layer ids no other overlay owns.
\<close>

theorem registry_invariant_without_zoom_hiding:
  "reach w \<Longrightarrow>
     registry_inv w \<and> ownership_disjoint w \<and>
     set (live_ids (deactivateOverlay i w)) = set (live_ids w) - owned w i \<and>
     owned (deactivateOverlay i w) i = {} \<and>
     (\<forall>j. j \<noteq> i \<longrightarrow>
        map_of (u_overlayToLayerIds (ui (deactivateOverlay i w))) j =
          map_of (u_overlayToLayerIds (ui w)) j \<and>
        owned w j \<subseteq> set (live_ids (deactivateOverlay i w))) \<and>
     registry_inv (snd (bls_hideOverlay i f w)) \<and>
     registry_inv (snd (bls_setOverlayOpacity i v w)) \<and>
     ((\<forall>c ls. find_overlay w i = Some c \<and> o_deckLayers c = Some ls \<longrightarrow> ids_free_for w i ls) \<longrightarrow>
        registry_inv (snd (activateOverlay i u w))) \<and>
     ((\<forall>c ls. find_overlay (setOverlayConfig i g w) i = Some c \<and> o_deckLayers c = Some ls
          \<longrightarrow> ids_free_for w i ls) \<longrightarrow>
        (\<exists>w2. resume_loader i (Resolved g) w = Inr w2 \<and> registry_inv w2))"
proof -
  assume r: "reach w"
  then have inv: "registry_inv w" and dis: "ownership_disjoint w"
    using reach_inv by blast+
  have "\<forall>j. j \<noteq> i \<longrightarrow> owned w j \<subseteq> set (live_ids (deactivateOverlay i w))"
  proof (intro allI impI)
    fix j assume ne: "j \<noteq> i"
    from dis ne have "owned w j \<inter> owned w i = {}" by (simp add: ownership_disjoint_iff)
    moreover from inv have "owned w j \<subseteq> set (live_ids w)" by (simp add: registry_inv_iff)
    ultimately show "owned w j \<subseteq> set (live_ids (deactivateOverlay i w))"
      unfolding live_deactivate by blast
  qed
  then have p1: "registry_inv w \<and> ownership_disjoint w \<and>
     set (live_ids (deactivateOverlay i w)) = set (live_ids w) - owned w i \<and>
     owned (deactivateOverlay i w) i = {} \<and>
     (\<forall>j. j \<noteq> i \<longrightarrow>
        map_of (u_overlayToLayerIds (ui (deactivateOverlay i w))) j =
          map_of (u_overlayToLayerIds (ui w)) j \<and>
        owned w j \<subseteq> set (live_ids (deactivateOverlay i w)))"
    using inv dis by (simp add: live_deactivate owned_deactivate o2l_deactivate)
  have p2: "registry_inv (snd (bls_hideOverlay i f w))"
    using reach_inv[OF reach_bls_hideOverlay[OF r]] by blast
  have p3: "registry_inv (snd (bls_setOverlayOpacity i v w))"
    using reach_inv[OF reach_bls_setOverlayOpacity[OF r]] by blast
  have p4: "(\<forall>c ls. find_overlay w i = Some c \<and> o_deckLayers c = Some ls \<longrightarrow> ids_free_for w i ls) \<longrightarrow>
        registry_inv (snd (activateOverlay i u w))"
  proof
    assume a: "\<forall>c ls. find_overlay w i = Some c \<and> o_deckLayers c = Some ls \<longrightarrow> ids_free_for w i ls"
    have "reach (snd (activateOverlay i u w))"
      by (rule reach_activateOverlay[OF r]) (use a in blast)
    then show "registry_inv (snd (activateOverlay i u w))" using reach_inv by blast
  qed
  have p5: "(\<forall>c ls. find_overlay (setOverlayConfig i g w) i = Some c \<and> o_deckLayers c = Some ls
          \<longrightarrow> ids_free_for w i ls) \<longrightarrow>
        (\<exists>w2. resume_loader i (Resolved g) w = Inr w2 \<and> registry_inv w2)"
  proof
    assume a: "\<forall>c ls. find_overlay (setOverlayConfig i g w) i = Some c \<and> o_deckLayers c = Some ls
          \<longrightarrow> ids_free_for w i ls"
    have "\<exists>w2. resume_loader i (Resolved g) w = Inr w2 \<and> reach w2"
      by (rule reach_resume_loader(1)[OF r]) (use a in blast)
    then show "\<exists>w2. resume_loader i (Resolved g) w = Inr w2 \<and> registry_inv w2"
      using reach_inv by blast
  qed
  from p1 p2 p3 p4 p5 show ?thesis by blast
qed

text \<open>
  Witness: overlays \<open>a\<close> and \<open>b\<close> get their layers; the state is reachable, the invariant
  holds, and deactivating \<open>a\<close> leaves exactly the layer of \<open>b\<close>; the invariant also holds
  after activating \<open>a\<close> in the initial state.
\<close>

theorem registry_invariant_witness:
  "reach (createAndStoreDeckLayers ''b'' [\<lparr>lc_id = ''b1'', lc_type = ''PathLayer''\<rparr>]
            (createAndStoreDeckLayers ''a'' ex_layers_a (ex_world 8))) \<and>
   registry_inv (createAndStoreDeckLayers ''b'' [\<lparr>lc_id = ''b1'', lc_type = ''PathLayer''\<rparr>]
            (createAndStoreDeckLayers ''a'' ex_layers_a (ex_world 8))) \<and>
   set (live_ids (deactivateOverlay ''a''
          (createAndStoreDeckLayers ''b'' [\<lparr>lc_id = ''b1'', lc_type = ''PathLayer''\<rparr>]
            (createAndStoreDeckLayers ''a'' ex_layers_a (ex_world 8))))) = {''b1''} \<and>
   registry_inv (snd (activateOverlay ''a'' True (ex_world 8)))"
proof -
  let ?w1 = "createAndStoreDeckLayers ''a'' ex_layers_a (ex_world 8)"
  let ?w2 = "createAndStoreDeckLayers ''b'' [\<lparr>lc_id = ''b1'', lc_type = ''PathLayer''\<rparr>] ?w1"
  have r0: "reach (ex_world 8)" by (rule reach_empty) (simp_all add: ex_world_simps)
  have fr: "\<And>ls. ids_free_for (ex_world 8) ''a'' ls"
    by (simp add: ids_free_for_def owner_ids_def ex_world_simps)
  from r0 fr have r1: "reach ?w1" by (rule reach_create)
  have e: "\<And>j. owned (ex_world 8) j = {}" by (simp add: owned_def ex_world_simps)
  have "ids_free_for ?w1 ''b'' [\<lparr>lc_id = ''b1'', lc_type = ''PathLayer''\<rparr>]"
    by (simp add: ids_free_for_iff owned_createAndStore e ex_world_simps ex_layers_a_def
          creatable_def)
  with r1 have r2: "reach ?w2" by (rule reach_create)
  have l: "set (live_ids ?w2) - owned ?w2 ''a'' = {''b1''}"
    by (auto simp add: live_createAndStore owned_createAndStore e ex_world_simps
          ex_layers_a_def creatable_def) (simp add: live_ids_def ex_world_simps)
  have a: "registry_inv (snd (activateOverlay ''a'' True (ex_world 8)))"
    using registry_invariant_without_zoom_hiding[OF r0, of "''a''" _ _ True] fr by blast
  show ?thesis
    using registry_invariant_without_zoom_hiding[OF r2, of "''a''"] r2 l a by simp
qed

text \<open>
  Counterexample to C1 as stated: overlay \<open>a\<close> (zoom range 5 to 10) is shown at zoom 8
  and the map then zooms to 12. \<open>overlayToLayerIds\<close> still lists both layers of \<open>a\<close>,
  \<open>deckLayers\<close> is empty.
\<close>

theorem registry_invariant_counterexample:
  "owned (onZoomEnd 12 (snd (bls_showOverlay ''a'' True (ex_world 8)))) ''a'' = {''a1'', ''a2''} \<and>
   live_ids (onZoomEnd 12 (snd (bls_showOverlay ''a'' True (ex_world 8)))) = [] \<and>
   \<not> registry_inv (onZoomEnd 12 (snd (bls_showOverlay ''a'' True (ex_world 8))))"
  by (simp add: ex_eval owned_def live_ids_def registry_inv_def owner_ids_def)


subsection \<open>C2\<close>

text \<open>
  C2. The claim: if the visible flag of an overlay has been set to false between the
  invocation of its loader and the loader's resolution, the layer-materialization step
  after the resolution does nothing. The code does not do this: the continuation of
  \<open>_activateOverlay\<close> never reads the flag. At the input below (\<open>showOverlay(c)\<close>, then
  \<open>hideOverlay(c)\<close> while the loader is pending, then the loader resolves having injected
  one layer) the overlay is not visible, yet its layer is recorded in
  \<open>overlayToLayerIds\<close> and committed to the deck overlay.
\<close>

theorem hidden_overlay_materialized_after_loader:
  "\<not> is_visible (st (run_pending 0 (Resolved ex_loader_c)
        (snd (bls_hideOverlay ''c'' True (snd (bls_showOverlay ''c'' True (ex_world 8))))))) ''c'' \<and>
   map_of (u_overlayToLayerIds (ui (run_pending 0 (Resolved ex_loader_c)
        (snd (bls_hideOverlay ''c'' True (snd (bls_showOverlay ''c'' True (ex_world 8)))))))) ''c''
     = Some [''c1''] \<and>
   u_deckOverlay (ui (run_pending 0 (Resolved ex_loader_c)
        (snd (bls_hideOverlay ''c'' True (snd (bls_showOverlay ''c'' True (ex_world 8)))))))
     = Some [\<lparr>l_id = ''c1'', l_type = ''ScatterplotLayer'', l_opacity = Num 1\<rparr>]"
  by (simp add: ex_eval2)

text \<open>
  What the code does in general: when the loader of overlay \<open>i\<close> resolves and the
  overlay, as looked up again in the configuration, has layer definitions, the
  continuation creates their layers, records their ids under \<open>i\<close> in
  \<open>overlayToLayerIds\<close>, has them live in \<open>deckLayers\<close> and commits the collection to the
  deck overlay, whatever the visible flag is; the StateService state is not changed.
\<close>

lemma loader_resolution_materializes:
  "find_overlay (setOverlayConfig i f w) i = Some ov \<Longrightarrow> o_deckLayers ov = Some ls \<Longrightarrow>
   \<exists>w2. resume_loader i (Resolved f) w = Inr w2 \<and>
        map_of (u_overlayToLayerIds (ui w2)) i = Some (map lc_id (filter (creatable (deck w)) ls)) \<and>
        lc_id ` set (filter (creatable (deck w)) ls) \<subseteq> set (live_ids w2) \<and>
        (u_deckOverlay (ui w) \<noteq> None \<longrightarrow>
           u_deckOverlay (ui w2) = Some (map snd (u_deckLayers (ui w2)))) \<and>
        st w2 = st w"
proof -
  assume f: "find_overlay (setOverlayConfig i f w) i = Some ov" and l: "o_deckLayers ov = Some ls"
  let ?w1 = "emit (EvSuccess i) (setOverlayConfig i f w)"
  let ?w2 = "activate_finish i (Some ov) ?w1"
  have f1: "find_overlay ?w1 i = Some ov" using f by (simp add: find_overlay_def)
  have r: "resume_loader i (Resolved f) w = Inr ?w2"
    by (simp add: resume_loader_def executeOnChecked_settle_def f1)
  note reg = activate_finish_registry[OF l, of i ?w1]
  have a: "map_of (u_overlayToLayerIds (ui ?w2)) i = Some (map lc_id (filter (creatable (deck w)) ls))"
    using reg by (simp add: o2l_createAndStore update_conv')
  have b: "lc_id ` set (filter (creatable (deck w)) ls) \<subseteq> set (live_ids ?w2)"
    using reg live_createAndStore[of i ls ?w1] by (simp add: live_ids_def)
  have c: "u_deckOverlay (ui w) \<noteq> None \<longrightarrow>
           u_deckOverlay (ui ?w2) = Some (map snd (u_deckLayers (ui ?w2)))"
    using reg deckOverlay_createAndStore[of ?w1 i ls] by simp
  have d: "st ?w2 = st w" by simp
  from r a b c d show ?thesis by blast
qed

text \<open>
  For instance: \<open>c\<close> is shown, hidden while its loader is pending, and the loader
  resolves in a state where \<open>c\<close> is not visible.
\<close>

lemma loader_resolution_example:
  "\<not> is_visible (st (snd (bls_hideOverlay ''c'' True (snd (bls_showOverlay ''c'' True (ex_world 8)))))) ''c'' \<and>
   (\<exists>w2. resume_loader ''c'' (Resolved ex_loader_c)
            (snd (bls_hideOverlay ''c'' True (snd (bls_showOverlay ''c'' True (ex_world 8))))) = Inr w2 \<and>
          map_of (u_overlayToLayerIds (ui w2)) ''c'' = Some [''c1''] \<and>
          ''c1'' \<in> set (live_ids w2) \<and> \<not> is_visible (st w2) ''c'')"
proof -
  let ?w = "snd (bls_hideOverlay ''c'' True (snd (bls_showOverlay ''c'' True (ex_world 8))))"
  have v: "\<not> is_visible (st ?w) ''c''" by (simp add: ex_eval2)
  have f: "find_overlay (setOverlayConfig ''c'' ex_loader_c ?w) ''c'' = Some (ex_loader_c ex_overlay_c)"
    by (simp add: ex_eval2)
  have l: "o_deckLayers (ex_loader_c ex_overlay_c) = Some ex_layers_c"
    by (simp add: ex_loader_c_def)
  have d: "deck ?w = Some [''ScatterplotLayer'', ''PathLayer'']" by (simp add: ex_eval2)
  from loader_resolution_materializes[OF f l] v d show ?thesis
    by (auto simp: ex_layers_c_def creatable_def)
qed


subsection \<open>C3\<close>

text \<open>
  C3. The claim: an overlay or group id found in the persisted item but absent from the
  configuration is ignored on restore, restore does not fail, and the next persisted
  write no longer contains the id. The code does not purge: \<open>_loadPersisted\<close> copies the
  saved overlay and group entries into the state and \<open>_persist\<close> writes the whole state.
  At the input below (the control is restored from an item that mentions the overlay
  \<open>ghost\<close> and the group \<open>ghosts\<close>, overlay \<open>a\<close> is made visible, and the state is
  written) the written item still contains both ids.
\<close>

theorem stale_id_still_persisted:
  "''ghost'' \<in> set (persisted_overlay_ids ''layers''
      (persist (st_setOverlayVisibility ''a'' True (restore_state ''layers'' ghost_storage ex_options))
         ghost_storage)) \<and>
   ''ghosts'' \<in> set (persisted_group_ids ''layers''
      (persist (st_setOverlayVisibility ''a'' True (restore_state ''layers'' ghost_storage ex_options))
         ghost_storage))"
  by (simp add: restore_state_def onAdd_initOverlays_def new_StateService_def loadPersisted_def
      initial_state_def ghost_storage_def ex_options_def ex_overlay_a_def ex_overlay_b_def ex_overlay_c_def
      ex_overlay_def initOverlay_def Let_def persisted_overlay_ids_def persisted_group_ids_def
      persist_def st_setOverlayVisibility_def schedulePersist_def snapshot_def set_visible_entry_def
      ensure_entry_def)

text \<open>
  What the code does in general: restore (\<open>_loadPersisted\<close> and the \<open>initOverlay\<close> loop)
  cannot fail; every saved overlay entry and group entry, whether configured or not, is
  in the restored state unchanged and is contained in the item written by the next
  \<open>_persist\<close>; and activating an id that has no configuration entry creates no layer,
  emits nothing and changes no state.
\<close>

lemma stale_ids_kept_on_restore_and_write:
  "map_of ls key = Some (Saved sv) \<Longrightarrow>
   (\<forall>x. (sv_overlays sv = Some os \<and> map_of os g = Some x) \<longrightarrow>
        getOverlayState (restore_state key ls op) g = Some x \<and>
        g \<in> set (persisted_overlay_ids key (persist (restore_state key ls op) ls'))) \<and>
   (\<forall>y. (sv_groups sv = Some gs \<and> map_of gs h = Some y) \<longrightarrow>
        map_of (s_groups (restore_state key ls op)) h = Some y \<and>
        h \<in> set (persisted_group_ids key (persist (restore_state key ls op) ls'))) \<and>
   (find_overlay w g = None \<longrightarrow>
        st (activate_detached g u w) = st w \<and> events (activate_detached g u w) = events w \<and>
        u_deckLayers (ui (activate_detached g u w)) = u_deckLayers (ui w) \<and>
        u_overlayToLayerIds (ui (activate_detached g u w)) = u_overlayToLayerIds (ui w) \<and>
        pending (activate_detached g u w) = pending w)"
proof (intro conjI allI impI)
  fix x assume a: "map_of ls key = Some (Saved sv)" "sv_overlays sv = Some os \<and> map_of os g = Some x"
  then have "map_of (s_overlays (new_StateService (Some key) ls)) g = Some x"
    by (simp add: loaded_overlays)
  then show g1: "getOverlayState (restore_state key ls op) g = Some x"
    by (simp add: getOverlayState_def restore_state_def onAdd_initOverlays_def fold_initOverlay_keeps)
  then show "g \<in> set (persisted_overlay_ids key (persist (restore_state key ls op) ls'))"
    using persisted_ids_persist[of "restore_state key ls op" key ls']
    by (simp add: getOverlayState_def map_of_Some_in_keys del: set_map)
next
  fix y assume a: "map_of ls key = Some (Saved sv)" "sv_groups sv = Some gs \<and> map_of gs h = Some y"
  then have "map_of (s_groups (new_StateService (Some key) ls)) h = Some y"
    by (simp add: loaded_groups)
  then show g1: "map_of (s_groups (restore_state key ls op)) h = Some y"
    by (simp add: restore_state_def onAdd_initOverlays_def fold_initOverlay_keeps_group)
  then show "h \<in> set (persisted_group_ids key (persist (restore_state key ls op) ls'))"
    using persisted_ids_persist[of "restore_state key ls op" key ls']
    by (simp add: map_of_Some_in_keys del: set_map)
qed (simp_all add: activate_unknown)

text \<open>For instance, the stored item that mentions \<open>ghost\<close> and the group \<open>ghosts\<close>.\<close>

lemma stale_ids_example:
  "getOverlayState (restore_state ''layers'' ghost_storage ex_options) ''ghost''
      = Some \<lparr>visible = True, opacity = Num 1\<rparr> \<and>
   ''ghost'' \<in> set (persisted_overlay_ids ''layers''
        (persist (restore_state ''layers'' ghost_storage ex_options) [])) \<and>
   ''ghosts'' \<in> set (persisted_group_ids ''layers''
        (persist (restore_state ''layers'' ghost_storage ex_options) [])) \<and>
   u_deckLayers (ui (activate_detached ''ghost'' False (ex_world 8))) = []"
proof -
  have m: "map_of ghost_storage ''layers'' =
     Some (Saved \<lparr> sv_base = Some (Some ''osm''),
               sv_overlays = Some [(''ghost'', \<lparr>visible = True, opacity = Num 1\<rparr>)],
               sv_groups = Some [(''ghosts'', \<lparr>visible = True, opacity = Num 1\<rparr>)],
               sv_layerOrder = Some [], sv_viewport = None \<rparr>)"
    by (simp add: ghost_storage_def)
  have f: "find_overlay (ex_world 8) ''ghost'' = None"
    by (simp add: find_overlay_def ex_world_simps ex_options_def ex_overlay_a_def ex_overlay_b_def
          ex_overlay_c_def ex_overlay_def)
  show ?thesis
    using stale_ids_kept_on_restore_and_write[OF m,
        of "[(''ghost'', \<lparr>visible = True, opacity = Num 1\<rparr>)]" "''ghost''" ex_options "[]"
           "[(''ghosts'', \<lparr>visible = True, opacity = Num 1\<rparr>)]" "''ghosts''" "ex_world 8" False] f
    by (simp add: ex_world_simps)
qed


subsection \<open>C4\<close>

text \<open>
  C4. An activation that reaches the loader has emitted \<open>loading{i}\<close> as its only event
  before the loader is invoked, and has not touched the registry or the overlay states.
  When the loader then throws or rejects with any value, the rest of the activation
  returns normally (the exception is caught in \<open>_activateOverlay\<close> and does not reach
  the caller); it emits \<open>error{i, message}\<close> and nothing else (\<open>_executeOnChecked\<close> emits
  it before throwing again and the \<open>catch\<close> block of \<open>_activateOverlay\<close> emits it a
  second time; for \<open>null\<close> or \<open>undefined\<close> only the second emission happens), it creates
  no layer (both registry maps and the committed collection are unchanged), it sets the
  loading flag to false, and it leaves the StateService state, so the visible flag, as
  it was.
\<close>

theorem loader_failure:
  "(fst (activateOverlay i u w) \<longrightarrow>
      events (snd (activateOverlay i u w)) = events w @ [EvLoading i] \<and>
      u_deckLayers (ui (snd (activateOverlay i u w))) = u_deckLayers (ui w) \<and>
      u_overlayToLayerIds (ui (snd (activateOverlay i u w))) = u_overlayToLayerIds (ui w) \<and>
      st (snd (activateOverlay i u w)) = st w) \<and>
   (\<exists>w2. resume_loader i (Rejected v) w' = Inr w2 \<and>
      events w2 = events w' @ (if v = Nullish then [EvError i (reported_message v)]
                               else [EvError i (reported_message v), EvError i (reported_message v)]) \<and>
      u_deckLayers (ui w2) = u_deckLayers (ui w') \<and>
      u_overlayToLayerIds (ui w2) = u_overlayToLayerIds (ui w') \<and>
      u_deckOverlay (ui w2) = u_deckOverlay (ui w') \<and>
      map_of (u_loadingStates (ui w2)) i = Some False \<and>
      st w2 = st w')"
  using activateOverlay_suspended[of i u w] resume_loader_rejected[of i v w'] by blast

text \<open>
  Witness: overlay \<open>c\<close> is shown and its loader rejects with the string \<open>boom\<close>; the
  events are \<open>loading\<close>, \<open>error\<close>, \<open>error\<close>, no layer exists and \<open>c\<close> is still visible.
\<close>

theorem loader_failure_witness:
  "fst (activateOverlay ''c'' True (ex_world 8)) \<and>
   events (snd (activateOverlay ''c'' True (ex_world 8))) = [EvLoading ''c''] \<and>
   (\<exists>w2. resume_loader ''c'' (Rejected (StrVal ''boom'')) (snd (bls_showOverlay ''c'' True (ex_world 8)))
            = Inr w2 \<and>
          events w2 = [EvLoading ''c'', EvError ''c'' ''boom'', EvError ''c'' ''boom''] \<and>
          u_deckLayers (ui w2) = [] \<and> u_overlayToLayerIds (ui w2) = [] \<and>
          map_of (u_loadingStates (ui w2)) ''c'' = Some False \<and>
          is_visible (st w2) ''c'')"
proof -
  let ?w = "snd (bls_showOverlay ''c'' True (ex_world 8))"
  have a: "fst (activateOverlay ''c'' True (ex_world 8))" by (simp add: ex_eval2)
  have e: "events ?w = [EvLoading ''c'']" "u_deckLayers (ui ?w) = []" "u_overlayToLayerIds (ui ?w) = []"
    by (simp_all add: ex_eval2)
  have v: "is_visible (st ?w) ''c''" by (rule visible_after_show)
  have m: "reported_message (StrVal ''boom'') = ''boom''" by (simp add: reported_message_def)
  from loader_failure[of "''c''" True "ex_world 8" "StrVal ''boom''" ?w] a e v m
  show ?thesis by (auto simp: ex_world_simps)
qed


subsection \<open>C5\<close>

text \<open>
  C5. \<open>setGroupVisibility(g, true)\<close>: if no member of the group is visible, the call is
  the group-change events after, for each member in configuration order, setting its
  visible flag and activating it, and every member is visible afterwards; otherwise it
  is the group-change events after activating exactly the members that were visible
  before the call, and no overlay state changes. \<open>setGroupVisibility(g, false)\<close>: every
  member ends not visible, without an entry in \<open>overlayToLayerIds\<close> and not
  zoom-filtered. In all cases the states of overlays outside the group are unchanged and
  the call returns \<open>true\<close>.
\<close>

theorem group_visibility_protocol:
  "(\<not> list_ex (\<lambda>c. is_visible (st w) (o_id c)) (overlaysInGroup w g) \<longrightarrow>
      snd (bls_setGroupVisibility g True w) =
        emit (Change (EvOverlaygroupchange g True)) (emit (EvOverlaygroupchange g True)
          (fold (\<lambda>c v. activate_detached (o_id c) False
                          (v\<lparr>st := st_setOverlayVisibility (o_id c) True (st v)\<rparr>))
             (overlaysInGroup w g) (w\<lparr>st := st_setGroupVisibility g True (st w)\<rparr>))) \<and>
      (\<forall>c \<in> set (overlaysInGroup w g).
          is_visible (st (snd (bls_setGroupVisibility g True w))) (o_id c))) \<and>
   (list_ex (\<lambda>c. is_visible (st w) (o_id c)) (overlaysInGroup w g) \<longrightarrow>
      snd (bls_setGroupVisibility g True w) =
        emit (Change (EvOverlaygroupchange g True)) (emit (EvOverlaygroupchange g True)
          (fold (\<lambda>c. activate_detached (o_id c) False)
             (filter (\<lambda>c. is_visible (st w) (o_id c)) (overlaysInGroup w g))
             (w\<lparr>st := st_setGroupVisibility g True (st w)\<rparr>))) \<and>
      s_overlays (st (snd (bls_setGroupVisibility g True w))) = s_overlays (st w)) \<and>
   (\<forall>c \<in> set (overlaysInGroup w g).
      \<not> is_visible (st (snd (bls_setGroupVisibility g False w))) (o_id c) \<and>
      map_of (u_overlayToLayerIds (ui (snd (bls_setGroupVisibility g False w)))) (o_id c) = None \<and>
      o_id c \<notin> set (u_zoomFilteredOverlays (ui (snd (bls_setGroupVisibility g False w))))) \<and>
   (\<forall>j. j \<notin> o_id ` set (overlaysInGroup w g) \<longrightarrow>
      getOverlayState (st (snd (bls_setGroupVisibility g v w))) j = getOverlayState (st w) j) \<and>
   fst (bls_setGroupVisibility g v w)"
proof -
  let ?w1 = "\<lambda>v. w\<lparr>st := st_setGroupVisibility g v (st w)\<rparr>"
  let ?ms = "overlaysInGroup w g"
  have ms: "\<And>v. overlaysInGroup (?w1 v) g = ?ms" by (simp add: overlaysInGroup_def)
  have any: "\<And>v. list_ex (\<lambda>c. is_visible (st (?w1 v)) (o_id c)) ?ms
                  = list_ex (\<lambda>c. is_visible (st w) (o_id c)) ?ms" by simp
  have vis1: "\<And>v. (\<lambda>c. is_visible (st (?w1 v)) (o_id c)) = (\<lambda>c. is_visible (st w) (o_id c))"
    by simp
  have on: "snd (bls_setGroupVisibility g True w) =
      emit (Change (EvOverlaygroupchange g True)) (emit (EvOverlaygroupchange g True)
        (fold (group_on_step (list_ex (\<lambda>c. is_visible (st w) (o_id c)) ?ms)) ?ms (?w1 True)))"
    by (simp add: bls_setGroupVisibility_def Let_def ms)
  have off: "snd (bls_setGroupVisibility g False w) =
      emit (Change (EvOverlaygroupchange g False)) (emit (EvOverlaygroupchange g False)
        (fold group_off_step ?ms (?w1 False)))"
    by (simp add: bls_setGroupVisibility_def Let_def ms)
  let ?f1 = "fold (group_on_step False) ?ms (?w1 True)"
  have f1: "?f1 = fold (\<lambda>c v. activate_detached (o_id c) False
                          (v\<lparr>st := st_setOverlayVisibility (o_id c) True (st v)\<rparr>)) ?ms (?w1 True)"
    by (rule fold_group_first_eq)
  have f2: "\<And>j. is_visible (st ?f1) j = (j \<in> o_id ` set ?ms \<or> is_visible (st w) j)"
    by (simp add: fold_group_first_vis)
  have f3: "\<And>j. j \<notin> o_id ` set ?ms \<Longrightarrow> getOverlayState (st ?f1) j = getOverlayState (st w) j"
    by (simp add: fold_group_first_other)
  let ?r1 = "fold (group_on_step True) ?ms (?w1 True)"
  have r1: "?r1 = fold (\<lambda>c. activate_detached (o_id c) False)
                    (filter (\<lambda>c. is_visible (st w) (o_id c)) ?ms) (?w1 True)"
    using fold_group_restore_eq[of ?ms "?w1 True"] unfolding vis1 .
  have r2: "s_overlays (st ?r1) = s_overlays (st w)"
    by (simp add: fold_group_restore_states)
  have p1: "\<not> list_ex (\<lambda>c. is_visible (st w) (o_id c)) ?ms \<longrightarrow>
      snd (bls_setGroupVisibility g True w) =
        emit (Change (EvOverlaygroupchange g True)) (emit (EvOverlaygroupchange g True)
          (fold (\<lambda>c v. activate_detached (o_id c) False
                          (v\<lparr>st := st_setOverlayVisibility (o_id c) True (st v)\<rparr>))
             ?ms (?w1 True))) \<and>
      (\<forall>c \<in> set ?ms. is_visible (st (snd (bls_setGroupVisibility g True w))) (o_id c))"
  proof
    assume n: "\<not> list_ex (\<lambda>c. is_visible (st w) (o_id c)) ?ms"
    then have e: "snd (bls_setGroupVisibility g True w) =
        emit (Change (EvOverlaygroupchange g True)) (emit (EvOverlaygroupchange g True) ?f1)"
      by (simp add: on)
    have "\<forall>c \<in> set ?ms. is_visible (st (snd (bls_setGroupVisibility g True w))) (o_id c)"
      unfolding e by (simp add: f2)
    then show "snd (bls_setGroupVisibility g True w) =
        emit (Change (EvOverlaygroupchange g True)) (emit (EvOverlaygroupchange g True)
          (fold (\<lambda>c v. activate_detached (o_id c) False
                          (v\<lparr>st := st_setOverlayVisibility (o_id c) True (st v)\<rparr>))
             ?ms (?w1 True))) \<and>
      (\<forall>c \<in> set ?ms. is_visible (st (snd (bls_setGroupVisibility g True w))) (o_id c))"
      using e f1 by simp
  qed
  have p2: "list_ex (\<lambda>c. is_visible (st w) (o_id c)) ?ms \<longrightarrow>
      snd (bls_setGroupVisibility g True w) =
        emit (Change (EvOverlaygroupchange g True)) (emit (EvOverlaygroupchange g True)
          (fold (\<lambda>c. activate_detached (o_id c) False)
             (filter (\<lambda>c. is_visible (st w) (o_id c)) ?ms) (?w1 True))) \<and>
      s_overlays (st (snd (bls_setGroupVisibility g True w))) = s_overlays (st w)"
  proof
    assume y: "list_ex (\<lambda>c. is_visible (st w) (o_id c)) ?ms"
    then have e: "snd (bls_setGroupVisibility g True w) =
        emit (Change (EvOverlaygroupchange g True)) (emit (EvOverlaygroupchange g True) ?r1)"
      by (simp add: on)
    have "s_overlays (st (snd (bls_setGroupVisibility g True w))) = s_overlays (st w)"
      unfolding e by (simp add: r2)
    then show "snd (bls_setGroupVisibility g True w) =
        emit (Change (EvOverlaygroupchange g True)) (emit (EvOverlaygroupchange g True)
          (fold (\<lambda>c. activate_detached (o_id c) False)
             (filter (\<lambda>c. is_visible (st w) (o_id c)) ?ms) (?w1 True))) \<and>
      s_overlays (st (snd (bls_setGroupVisibility g True w))) = s_overlays (st w)"
      using e r1 by simp
  qed
  have p3: "\<forall>c \<in> set ?ms.
      \<not> is_visible (st (snd (bls_setGroupVisibility g False w))) (o_id c) \<and>
      map_of (u_overlayToLayerIds (ui (snd (bls_setGroupVisibility g False w)))) (o_id c) = None \<and>
      o_id c \<notin> set (u_zoomFilteredOverlays (ui (snd (bls_setGroupVisibility g False w))))"
    by (simp add: off fold_group_off_vis fold_group_off_o2l fold_group_off_zoom)
  have p4: "\<forall>j. j \<notin> o_id ` set ?ms \<longrightarrow>
      getOverlayState (st (snd (bls_setGroupVisibility g v w))) j = getOverlayState (st w) j"
  proof (cases v)
    case True
    show ?thesis
    proof (cases "list_ex (\<lambda>c. is_visible (st w) (o_id c)) ?ms")
      case True
      with p2 have "s_overlays (st (snd (bls_setGroupVisibility g True w))) = s_overlays (st w)"
        by blast
      then show ?thesis using \<open>v\<close> by (simp add: getOverlayState_def)
    next
      case False
      then show ?thesis using f3 \<open>v\<close> by (simp add: on)
    qed
  next
    case False
    then show ?thesis by (simp add: off fold_group_off_other)
  qed
  have p5: "fst (bls_setGroupVisibility g v w)" by (simp add: bls_setGroupVisibility_def Let_def)
  from p1 p2 p3 p4 p5 show ?thesis by blast
qed

text \<open>
  Witness, group \<open>g\<close> with members \<open>a\<close> and \<open>b\<close>: switched on with both hidden, both
  become visible and get their layers; switched on with only \<open>a\<close> visible, \<open>b\<close> stays
  hidden and without layers; switched off, both are hidden and no layer is registered.
\<close>

theorem group_visibility_witness:
  "is_visible (st (snd (bls_setGroupVisibility ''g'' True (ex_world 8)))) ''a'' \<and>
   is_visible (st (snd (bls_setGroupVisibility ''g'' True (ex_world 8)))) ''b'' \<and>
   u_overlayToLayerIds (ui (snd (bls_setGroupVisibility ''g'' True (ex_world 8))))
     = [(''a'', [''a1'', ''a2'']), (''b'', [''b1''])] \<and>
   \<not> is_visible (st (snd (bls_setGroupVisibility ''g'' True
         (snd (bls_showOverlay ''a'' True (ex_world 8)))))) ''b'' \<and>
   u_overlayToLayerIds (ui (snd (bls_setGroupVisibility ''g'' True
         (snd (bls_showOverlay ''a'' True (ex_world 8))))))
     = [(''a'', [''a1'', ''a2''])] \<and>
   \<not> is_visible (st (snd (bls_setGroupVisibility ''g'' False
         (snd (bls_showOverlay ''a'' True (ex_world 8)))))) ''a'' \<and>
   \<not> is_visible (st (snd (bls_setGroupVisibility ''g'' False
         (snd (bls_showOverlay ''a'' True (ex_world 8)))))) ''b'' \<and>
   u_overlayToLayerIds (ui (snd (bls_setGroupVisibility ''g'' False
         (snd (bls_showOverlay ''a'' True (ex_world 8)))))) = []"
proof -
  let ?w0 = "ex_world 8"
  let ?wa = "snd (bls_showOverlay ''a'' True (ex_world 8))"
  have m0: "overlaysInGroup ?w0 ''g'' = [ex_overlay_a, ex_overlay_b]"
    by (simp add: overlaysInGroup_def ex_world_simps ex_options_def ex_overlay_a_def
          ex_overlay_b_def ex_overlay_c_def ex_overlay_def)
  have ida: "o_id ex_overlay_a = ''a''" "o_id ex_overlay_b = ''b''"
    by (simp_all add: ex_overlay_a_def ex_overlay_b_def ex_overlay_def)
  have n0: "\<not> list_ex (\<lambda>c. is_visible (st ?w0) (o_id c)) (overlaysInGroup ?w0 ''g'')"
    unfolding m0 by (simp add: ida) (simp add: ex_eval)
  have ma: "overlaysInGroup ?wa ''g'' = [ex_overlay_a, ex_overlay_b]"
    using m0 by (simp add: overlaysInGroup_def bls_showOverlay_def Let_def)
  have va: "is_visible (st ?wa) ''a''" by (rule visible_after_show)
  have vb: "\<not> is_visible (st ?wa) ''b''" by (simp add: ex_eval)
  have ya: "list_ex (\<lambda>c. is_visible (st ?wa) (o_id c)) (overlaysInGroup ?wa ''g'')"
    unfolding ma using va by (simp add: ida)
  note t0 = group_visibility_protocol[of ?w0 "''g''" True]
  note ta = group_visibility_protocol[of ?wa "''g''" True]
  from t0 n0 have c1: "\<forall>c \<in> set (overlaysInGroup ?w0 ''g'').
      is_visible (st (snd (bls_setGroupVisibility ''g'' True ?w0))) (o_id c)" by blast
  from ta ya have c2: "s_overlays (st (snd (bls_setGroupVisibility ''g'' True ?wa))) = s_overlays (st ?wa)"
    by blast
  from ta have c3: "\<forall>c \<in> set (overlaysInGroup ?wa ''g'').
      \<not> is_visible (st (snd (bls_setGroupVisibility ''g'' False ?wa))) (o_id c)" by blast
  have e1: "u_overlayToLayerIds (ui (snd (bls_setGroupVisibility ''g'' True ?w0)))
     = [(''a'', [''a1'', ''a2'']), (''b'', [''b1''])]"
    by (simp add: ex_eval3)
  have e2: "u_overlayToLayerIds (ui (snd (bls_setGroupVisibility ''g'' True ?wa)))
     = [(''a'', [''a1'', ''a2''])]"
    by (simp add: ex_eval3)
  have e3: "u_overlayToLayerIds (ui (snd (bls_setGroupVisibility ''g'' False ?wa))) = []"
    by (simp add: ex_eval3)
  have d2: "\<not> is_visible (st (snd (bls_setGroupVisibility ''g'' True ?wa))) ''b''"
    using c2 vb is_visible_cong[OF c2, of "''b''"] by simp
  from c1 c3 d2 e1 e2 e3 show ?thesis unfolding m0 ma by (simp add: ida)
qed


text \<open>
  A remark on the off/on cycle: switching a group off hides every member, so switching
  it on again takes the first branch and shows every member, also one that was hidden
  before the cycle (here \<open>b\<close>).
\<close>

lemma group_off_then_on_shows_every_member:
  "\<not> is_visible (st (snd (bls_showOverlay ''a'' True (ex_world 8)))) ''b'' \<and>
   is_visible (st (snd (bls_setGroupVisibility ''g'' True
      (snd (bls_setGroupVisibility ''g'' False
         (snd (bls_showOverlay ''a'' True (ex_world 8)))))))) ''b''"
  by (simp add: ex_eval3)


subsection \<open>C6\<close>

text \<open>
  C6. With a map at zoom \<open>z\<close> and an overlay whose zoom range is \<open>mn\<close> to \<open>mx\<close>,
  \<open>_checkZoomConstraints\<close> lets the overlay through exactly when neither \<open>z < mn\<close> nor
  \<open>mx \<le> z\<close>: the range is min-inclusive and max-exclusive. The test made at activation
  (\<open>_updateZoomFiltering\<close>, and so \<open>_activateOverlay\<close>) and the one made on zoom
  re-evaluation (the loop body of \<open>updateAllZoomFiltering\<close>) are this same predicate:
  after either, the overlay is in the zoom-filtered set exactly when \<open>z < mn\<close> or
  \<open>mx \<le> z\<close>.
\<close>

theorem zoom_range_min_inclusive_max_exclusive:
  "u_map (ui w) = Some z \<Longrightarrow> find_overlay w i = Some overlay \<Longrightarrow>
   getFilterConfig overlay = (Some mn, Some mx) \<Longrightarrow>
     checkZoomConstraints w overlay = (\<not> (z < mn \<or> mx \<le> z)) \<and>
     fst (updateZoomFiltering i w) = (\<not> (z < mn \<or> mx \<le> z)) \<and>
     (i \<in> set (u_zoomFilteredOverlays (ui (snd (updateZoomFiltering i w))))) = (z < mn \<or> mx \<le> z) \<and>
     (u_deckOverlay (ui w) \<noteq> None \<longrightarrow>
        (i \<in> set (u_zoomFilteredOverlays (ui (activate_detached i False w)))) = (z < mn \<or> mx \<le> z)) \<and>
     (is_visible (st w) i \<longrightarrow>
        (i \<in> set (u_zoomFilteredOverlays (ui (zoomFilterStep i w)))) = (z < mn \<or> mx \<le> z))"
  using checkZoomConstraints_interval[of w z overlay mn mx]
        updateZoomFiltering_found[of w i overlay] zoomFilterStep_filtered[of w i overlay]
        activate_detached_zoomFiltered[of w z i overlay]
  by simp

text \<open>
  Witness, with the range 5 to 10 of the claim: zoom 5 and 9.999 pass, zoom 10 and 4.999
  are filtered.
\<close>

theorem zoom_range_witness:
  "checkZoomConstraints (ex_world 5) ex_overlay_a \<and>
   checkZoomConstraints (ex_world 9.999) ex_overlay_a \<and>
   \<not> checkZoomConstraints (ex_world 10) ex_overlay_a \<and>
   \<not> checkZoomConstraints (ex_world 4.999) ex_overlay_a \<and>
   ''a'' \<in> set (u_zoomFilteredOverlays (ui (activate_detached ''a'' False (ex_world 10)))) \<and>
   ''a'' \<notin> set (u_zoomFilteredOverlays (ui (activate_detached ''a'' False (ex_world 9.999))))"
  using zoom_range_min_inclusive_max_exclusive[of "ex_world 5" 5 "''a''" ex_overlay_a 5 10]
        zoom_range_min_inclusive_max_exclusive[of "ex_world 9.999" "9.999" "''a''" ex_overlay_a 5 10]
        zoom_range_min_inclusive_max_exclusive[of "ex_world 10" 10 "''a''" ex_overlay_a 5 10]
        zoom_range_min_inclusive_max_exclusive[of "ex_world 4.999" "4.999" "''a''" ex_overlay_a 5 10]
  by (simp add: ex_world_simps ex_find ex_filter)


subsection \<open>C7\<close>

text \<open>
  C7. \<open>showOverlay\<close> on an overlay that is already visible returns \<open>true\<close> and leaves the
  engine untouched; a second \<open>showOverlay\<close> right after a first one (before anything
  suspended has resumed) therefore returns \<open>true\<close> and changes nothing. For an overlay
  without loader and forced base style that is hidden, in zoom range and has layer
  definitions with distinct ids, on an attached map with a deck overlay, the state after
  the two calls lists under the overlay exactly the ids of its creatable layer
  definitions, each once, all of them live, and \<open>deckLayers\<close> has no id twice.
\<close>

theorem double_activation_one_layer_set:
  "(is_visible (st w) i \<longrightarrow> bls_showOverlay i f w = (True, w)) \<and>
   bls_showOverlay i f' (snd (bls_showOverlay i f w)) = (True, snd (bls_showOverlay i f w)) \<and>
   (\<not> is_visible (st w) i \<and> u_map (ui w) = Some z \<and> u_deckOverlay (ui w) \<noteq> None \<and>
    find_overlay w i = Some ov \<and> \<not> o_onChecked ov \<and> o_forcedBaseLayerId ov = None \<and>
    checkZoomConstraints w ov \<and> o_deckLayers ov = Some ls \<and> distinct (map lc_id ls) \<and>
    distinct (live_ids w) \<longrightarrow>
      map_of (u_overlayToLayerIds (ui (snd (bls_showOverlay i f' (snd (bls_showOverlay i f w)))))) i
        = Some (map lc_id (filter (creatable (deck w)) ls)) \<and>
      distinct (map lc_id (filter (creatable (deck w)) ls)) \<and>
      distinct (live_ids (snd (bls_showOverlay i f' (snd (bls_showOverlay i f w))))) \<and>
      lc_id ` set (filter (creatable (deck w)) ls)
        \<subseteq> set (live_ids (snd (bls_showOverlay i f' (snd (bls_showOverlay i f w))))))"
proof (intro conjI impI)
  show "bls_showOverlay i f' (snd (bls_showOverlay i f w)) = (True, snd (bls_showOverlay i f w))"
    by (rule second_show)
next
  assume "is_visible (st w) i" then show "bls_showOverlay i f w = (True, w)"
    by (simp add: bls_showOverlay_def)
next
  assume a: "\<not> is_visible (st w) i \<and> u_map (ui w) = Some z \<and> u_deckOverlay (ui w) \<noteq> None \<and>
    find_overlay w i = Some ov \<and> \<not> o_onChecked ov \<and> o_forcedBaseLayerId ov = None \<and>
    checkZoomConstraints w ov \<and> o_deckLayers ov = Some ls \<and> distinct (map lc_id ls) \<and>
    distinct (live_ids w)"
  let ?w0 = "w\<lparr>st := st_setOverlayVisibility i True (st w)\<rparr>"
  let ?wz = "snd (updateZoomFiltering i (setLoadingState i True ?w0))"
  let ?wc = "createAndStoreDeckLayers i ls ?wz"
  have c0: "checkZoomConstraints ?w0 ov = checkZoomConstraints w ov"
    by (rule checkZoomConstraints_cong) simp
  have act: "activateOverlay i f ?w0 = (False, activate_finish i (Some ov) ?wz)"
    using a c0 by (intro activateOverlay_plain[where z = z]) (simp_all add: find_overlay_def)
  have once: "ui (snd (bls_showOverlay i f w)) = ui (activate_finish i (Some ov) ?wz)"
    using a act by (simp add: bls_showOverlay_def Let_def)
  have twice: "snd (bls_showOverlay i f' (snd (bls_showOverlay i f w))) = snd (bls_showOverlay i f w)"
    by (simp add: second_show)
  from a have l: "o_deckLayers ov = Some ls" by simp
  note reg = activate_finish_registry[OF l, of i ?wz]
  have dz: "deck ?wz = deck w" by simp
  have lz: "live_ids ?wz = live_ids w" by (simp add: live_ids_def)
  show "map_of (u_overlayToLayerIds (ui (snd (bls_showOverlay i f' (snd (bls_showOverlay i f w)))))) i
        = Some (map lc_id (filter (creatable (deck w)) ls))"
    unfolding twice once using reg dz by (simp add: o2l_createAndStore update_conv')
  show "distinct (map lc_id (filter (creatable (deck w)) ls))"
    using a by (simp add: distinct_map_filter)
  have "distinct (live_ids ?wc)" using a lz by (simp add: distinct_live_createAndStore)
  then show "distinct (live_ids (snd (bls_showOverlay i f' (snd (bls_showOverlay i f w)))))"
    unfolding twice live_ids_def once using reg by simp
  have "lc_id ` set (filter (creatable (deck w)) ls) \<subseteq> set (live_ids ?wc)"
    using live_createAndStore[of i ls ?wz] dz by simp
  then show "lc_id ` set (filter (creatable (deck w)) ls)
        \<subseteq> set (live_ids (snd (bls_showOverlay i f' (snd (bls_showOverlay i f w)))))"
    unfolding twice live_ids_def once using reg by simp
qed

text \<open>Witness: \<open>showOverlay(a, true)\<close> twice at zoom 8.\<close>

theorem double_activation_witness:
  "bls_showOverlay ''a'' True (snd (bls_showOverlay ''a'' True (ex_world 8))) =
      (True, snd (bls_showOverlay ''a'' True (ex_world 8))) \<and>
   map_of (u_overlayToLayerIds (ui (snd (bls_showOverlay ''a'' True
       (snd (bls_showOverlay ''a'' True (ex_world 8))))))) ''a'' = Some [''a1'', ''a2''] \<and>
   live_ids (snd (bls_showOverlay ''a'' True (snd (bls_showOverlay ''a'' True (ex_world 8)))))
      = [''a1'', ''a2'']"
proof -
  let ?w1 = "snd (bls_showOverlay ''a'' True (ex_world 8))"
  have h: "\<not> is_visible (st (ex_world 8)) ''a''" "checkZoomConstraints (ex_world 8) ex_overlay_a"
    "o_deckLayers ex_overlay_a = Some ex_layers_a" "\<not> o_onChecked ex_overlay_a"
    "o_forcedBaseLayerId ex_overlay_a = None" "distinct (map lc_id ex_layers_a)"
    "distinct (live_ids (ex_world 8))"
    by (simp_all add: ex_eval live_ids_def)
  note t = double_activation_one_layer_set[of "ex_world 8" "''a''" True True 8 ex_overlay_a ex_layers_a]
  from t have c2: "bls_showOverlay ''a'' True ?w1 = (True, ?w1)" by blast
  have hyp: "\<not> is_visible (st (ex_world 8)) ''a'' \<and> u_map (ui (ex_world 8)) = Some 8 \<and>
    u_deckOverlay (ui (ex_world 8)) \<noteq> None \<and>
    find_overlay (ex_world 8) ''a'' = Some ex_overlay_a \<and> \<not> o_onChecked ex_overlay_a \<and>
    o_forcedBaseLayerId ex_overlay_a = None \<and>
    checkZoomConstraints (ex_world 8) ex_overlay_a \<and> o_deckLayers ex_overlay_a = Some ex_layers_a \<and>
    distinct (map lc_id ex_layers_a) \<and> distinct (live_ids (ex_world 8))"
    using h ex_find(1)[of 8] by (simp add: ex_world_simps)
  from t hyp
  have c3: "map_of (u_overlayToLayerIds (ui (snd (bls_showOverlay ''a'' True ?w1)))) ''a''
        = Some (map lc_id (filter (creatable (deck (ex_world 8))) ex_layers_a))"
    by blast
  have l: "live_ids ?w1 = [''a1'', ''a2'']"
    by (simp add: ex_eval live_ids_def)
  have e: "map lc_id (filter (creatable (deck (ex_world 8))) ex_layers_a) = [''a1'', ''a2'']"
    by (simp add: ex_world_simps ex_layers_a_def creatable_def)
  show ?thesis using c2 c3 l e by simp
qed


subsection \<open>C8\<close>

text \<open>
  C8. For every overlay id and every number \<open>v\<close> (finite, NaN or infinite), after
  \<open>setOverlayOpacity\<close> the state holds an entry for the id whose opacity is a finite
  number in \<open>[0, 1]\<close>, namely \<open>v\<close> clamped (0 for NaN); this holds for
  \<open>BusinessLogicService.setOverlayOpacity\<close> and for \<open>StateService.setOverlayOpacity\<close>
  alone.
\<close>

theorem setOverlayOpacity_stores_clamped:
  "(\<exists>x r. getOverlayState (st (snd (bls_setOverlayOpacity i v w))) i = Some x
      \<and> opacity x = Num r \<and> 0 \<le> r \<and> r \<le> 1
      \<and> r = (case v of Num a \<Rightarrow> max 0 (min 1 a) | NaN \<Rightarrow> 0 | PosInf \<Rightarrow> 1 | NegInf \<Rightarrow> 0)) \<and>
   (\<exists>x r. getOverlayState (st_setOverlayOpacity i v s) i = Some x
      \<and> opacity x = Num r \<and> 0 \<le> r \<and> r \<le> 1
      \<and> r = (case v of Num a \<Rightarrow> max 0 (min 1 a) | NaN \<Rightarrow> 0 | PosInf \<Rightarrow> 1 | NegInf \<Rightarrow> 0))"
proof -
  obtain r where r: "clamp_opacity v = Num r" "0 \<le> r" "r \<le> 1"
    "r = (case v of Num a \<Rightarrow> max 0 (min 1 a) | NaN \<Rightarrow> 0 | PosInf \<Rightarrow> 1 | NegInf \<Rightarrow> 0)"
    using clamp_opacity_range[of v] by blast
  have "clamp_opacity (clamp_opacity v) = Num r"
    using clamp_opacity_idem[of v] r(1) by simp
  then have "\<exists>x. getOverlayState (st (snd (bls_setOverlayOpacity i v w))) i = Some x
      \<and> opacity x = Num r"
    by (simp add: st_bls_setOverlayOpacity st_setOverlayOpacity_def getOverlayState_def
        map_of_set_opacity_entry)
  moreover have "\<exists>x. getOverlayState (st_setOverlayOpacity i v s) i = Some x \<and> opacity x = Num r"
    using r(1) by (simp add: st_setOverlayOpacity_def getOverlayState_def map_of_set_opacity_entry)
  ultimately show ?thesis using r by blast
qed

text \<open>Witness: 1.5 is stored as 1 and -0.2 as 0.\<close>

theorem setOverlayOpacity_witness:
  "overlay_opacity (snd (bls_setOverlayOpacity ''a'' (Num 1.5) (ex_world 8))) ''a'' = Num 1 \<and>
   overlay_opacity (snd (bls_setOverlayOpacity ''a'' (Num (- 0.2)) (ex_world 8))) ''a'' = Num 0"
  using setOverlayOpacity_stores_clamped[of "''a''" "Num 1.5" "ex_world 8" "st (ex_world 8)"]
        setOverlayOpacity_stores_clamped[of "''a''" "Num (- 0.2)" "ex_world 8" "st (ex_world 8)"]
  by (auto simp: overlay_opacity_def)


subsection \<open>C9\<close>

text \<open>
  C9. Each of \<open>showOverlay\<close>, \<open>hideOverlay\<close>, \<open>setOverlayOpacity\<close>, \<open>removeOverlay\<close> with
  an overlay id that no configured overlay has, \<open>showGroup\<close>, \<open>hideGroup\<close>,
  \<open>setGroupOpacity\<close> with a group no overlay belongs to, and \<open>setBaseLayer\<close>,
  \<open>removeBaseStyle\<close> with an id that no base style has, returns \<open>false\<close> and leaves the
  engine unchanged; no step on that path can raise.
\<close>

theorem unknown_id_returns_false_unchanged:
  "(i \<notin> o_id ` set (overlays (opts w)) \<longrightarrow>
      ctl_showOverlay i f w = (False, w) \<and> ctl_hideOverlay i f w = (False, w) \<and>
      ctl_setOverlayOpacity i v w = (False, w) \<and> ctl_removeOverlay i f w = (False, w)) \<and>
   (Some g \<notin> o_group ` set (overlays (opts w)) \<longrightarrow>
      ctl_showGroup g w = (False, w) \<and> ctl_hideGroup g w = (False, w) \<and>
      ctl_setGroupOpacity g v w = (False, w)) \<and>
   (b \<notin> b_id ` set (baseStyles (opts w)) \<longrightarrow>
      ctl_setBaseLayer b w = (False, w) \<and> ctl_removeBaseStyle b w = (False, w) \<and>
      bls_setBaseLayer b w = (False, w))"
proof -
  have ov: "i \<notin> o_id ` set (overlays (opts w)) \<Longrightarrow>
       find (\<lambda>c. o_id c = i) (overlays (opts w)) = None \<and> \<not> list_ex (\<lambda>c. o_id c = i) (overlays (opts w))"
    by (auto simp: find_None_iff list_ex_iff)
  have gr: "Some g \<notin> o_group ` set (overlays (opts w)) \<Longrightarrow>
       \<not> list_ex (\<lambda>c. o_group c = Some g) (overlays (opts w))"
    by (force simp: list_ex_iff)
  have bs: "b \<notin> b_id ` set (baseStyles (opts w)) \<Longrightarrow>
       find (\<lambda>x. b_id x = b) (baseStyles (opts w)) = None \<and> \<not> list_ex (\<lambda>x. b_id x = b) (baseStyles (opts w))"
    by (auto simp: find_None_iff list_ex_iff)
  show ?thesis
    using ov gr bs
    by (simp add: ctl_showOverlay_def ctl_hideOverlay_def ctl_setOverlayOpacity_def
          ctl_removeOverlay_def ctl_showGroup_def ctl_hideGroup_def ctl_setGroupOpacity_def
          ctl_setBaseLayer_def ctl_removeBaseStyle_def bls_setBaseLayer_def)
qed

text \<open>Witness: the id \<open>nope\<close> in the example configuration.\<close>

theorem unknown_id_witness:
  "ctl_showOverlay ''nope'' True (ex_world 8) = (False, ex_world 8) \<and>
   ctl_hideOverlay ''nope'' True (ex_world 8) = (False, ex_world 8) \<and>
   ctl_setOverlayOpacity ''nope'' (Num 0.5) (ex_world 8) = (False, ex_world 8) \<and>
   ctl_removeOverlay ''nope'' True (ex_world 8) = (False, ex_world 8) \<and>
   ctl_showGroup ''nope'' (ex_world 8) = (False, ex_world 8) \<and>
   ctl_hideGroup ''nope'' (ex_world 8) = (False, ex_world 8) \<and>
   ctl_setGroupOpacity ''nope'' (Num 0.5) (ex_world 8) = (False, ex_world 8) \<and>
   ctl_setBaseLayer ''nope'' (ex_world 8) = (False, ex_world 8) \<and>
   ctl_removeBaseStyle ''nope'' (ex_world 8) = (False, ex_world 8)"
proof -
  have "''nope'' \<notin> o_id ` set (overlays (opts (ex_world 8)))"
    "Some ''nope'' \<notin> o_group ` set (overlays (opts (ex_world 8)))"
    "''nope'' \<notin> b_id ` set (baseStyles (opts (ex_world 8)))"
    by (simp_all add: ex_world_simps ex_options_def ex_overlay_a_def ex_overlay_b_def
          ex_overlay_c_def ex_overlay_def)
  then show ?thesis
    using unknown_id_returns_false_unchanged[of "''nope''" "ex_world 8" True "Num 0.5" "''nope''" "''nope''"]
    by simp
qed


subsection \<open>C10\<close>

text \<open>
  C10. \<open>BusinessLogicService.showOverlay(i, fireCallback)\<close> on an overlay whose visible
  flag is already true, and \<open>hideOverlay(i, fireCallback)\<close> on an overlay whose state is
  absent or has \<open>visible = false\<close>, return \<open>true\<close> and leave the whole engine as it was:
  no state change, no event and no suspended call, whatever \<open>fireCallback\<close> is. The same
  holds for \<open>LayersControl.showOverlay\<close> and \<open>hideOverlay\<close> on a configured overlay.
\<close>

theorem visibility_guards_return_true_unchanged:
  "(is_visible (st w) i \<longrightarrow> bls_showOverlay i fire w = (True, w)) \<and>
   ((getOverlayState (st w) i = None \<or>
     (\<exists>x. getOverlayState (st w) i = Some x \<and> \<not> visible x)) \<longrightarrow>
      bls_hideOverlay i fire w = (True, w)) \<and>
   (i \<in> o_id ` set (overlays (opts w)) \<longrightarrow>
      (is_visible (st w) i \<longrightarrow> ctl_showOverlay i fire w = (True, w)) \<and>
      (\<not> is_visible (st w) i \<longrightarrow> ctl_hideOverlay i fire w = (True, w)))"
proof -
  have "i \<in> o_id ` set (overlays (opts w)) \<Longrightarrow>
          \<exists>c. find (\<lambda>c. o_id c = i) (overlays (opts w)) = Some c"
    by (cases "find (\<lambda>c. o_id c = i) (overlays (opts w))") (auto simp: find_None_iff)
  then show ?thesis
    by (auto simp add: bls_showOverlay_def bls_hideOverlay_def is_visible_def
          ctl_showOverlay_def ctl_hideOverlay_def)
qed

text \<open>
  Witness: a second \<open>showOverlay\<close> of \<open>a\<close>, and \<open>hideOverlay\<close> of the hidden \<open>b\<close> and of an
  id without state.
\<close>

theorem visibility_guards_witness:
  "is_visible (st (snd (bls_showOverlay ''a'' True (ex_world 8)))) ''a'' \<and>
   bls_showOverlay ''a'' True (snd (bls_showOverlay ''a'' True (ex_world 8))) =
     (True, snd (bls_showOverlay ''a'' True (ex_world 8))) \<and>
   getOverlayState (st (ex_world 8)) ''b'' = Some \<lparr>visible = False, opacity = Num 1\<rparr> \<and>
   bls_hideOverlay ''b'' True (ex_world 8) = (True, ex_world 8) \<and>
   bls_hideOverlay ''ghost'' True (ex_world 8) = (True, ex_world 8)"
proof -
  have v: "is_visible (st (snd (bls_showOverlay ''a'' True (ex_world 8)))) ''a''"
    by (rule visible_after_show)
  have b: "getOverlayState (st (ex_world 8)) ''b'' = Some \<lparr>visible = False, opacity = Num 1\<rparr>"
    by (simp add: ex_eval)
  have g: "getOverlayState (st (ex_world 8)) ''ghost'' = None"
    by (simp add: ex_eval)
  show ?thesis
    using v b g
      visibility_guards_return_true_unchanged[of "snd (bls_showOverlay ''a'' True (ex_world 8))" "''a''" True]
      visibility_guards_return_true_unchanged[of "ex_world 8" "''b''" True]
      visibility_guards_return_true_unchanged[of "ex_world 8" "''ghost''" True]
    by simp
qed

end
